theory Spec2Isabelle
  imports Complex_Main
begin

section \<open>JavaScript values\<close>

text \<open>
  Strings are lists of code units. Message records come from \<^verbatim>\<open>formatMessage\<close> or from
  \<^verbatim>\<open>JSON.parse\<close> of a saved file, so a field can be absent (\<^verbatim>\<open>undefined\<close>) or hold any
  JSON value: \<^verbatim>\<open>null\<close>, a boolean, a number, a string, an array, or an object, which is the
  list of its own properties in the order of the text (a later duplicate of a key
  overrides an earlier one). Numbers are rationals, which include every finite double;
  \<^verbatim>\<open>-0\<close> is \<open>0\<close>, which no operation below tells apart.
\<close>

datatype jsval = JUndefined | JNull | JBool bool | JNum rat | JStr string
  | JArr "jsval list" | JObj "(string \<times> jsval) list"

record message =
  timestamp :: jsval
  "from" :: jsval
  author :: jsval
  body :: jsval
  hasMedia :: jsval
  fromMe :: jsval
  quotedMsg :: jsval

text \<open>
  A raw message of the chat client, as \<^verbatim>\<open>formatMessage\<close> reads it; \<open>rawData\<close> is its
  \<^verbatim>\<open>_data\<close>.
\<close>

record rawMessage =
  rawTimestamp :: jsval
  rawFrom :: jsval
  rawAuthor :: jsval
  rawBody :: jsval
  rawHasMedia :: jsval
  rawFromMe :: jsval
  rawData :: jsval

text \<open>
  What the formatter takes from the JavaScript host and this theory leaves open:
  \<open>localTime\<close> is \<^verbatim>\<open>getHours()\<close> and \<^verbatim>\<open>getMinutes()\<close> of \<^verbatim>\<open>new Date(v)\<close>, \<open>None\<close> for an invalid
  date, whose getters return \<^verbatim>\<open>NaN\<close>; \<open>isoString\<close> is \<^verbatim>\<open>new Date(v * 1000).toISOString()\<close>,
  \<open>None\<close> for an invalid date, on which \<^verbatim>\<open>toISOString\<close> raises a \<^verbatim>\<open>RangeError\<close>; \<open>exceeds60\<close>
  tells whether the number that a string converts to is greater than 60; \<open>numberText\<close>
  prints a number that is not an integer below \<open>2^53\<close> in absolute value.
\<close>

record host =
  localTime :: "jsval \<Rightarrow> (nat \<times> nat) option"
  isoString :: "jsval \<Rightarrow> string option"
  exceeds60 :: "string \<Rightarrow> bool"
  numberText :: "rat \<Rightarrow> string"

datatype error = TypeError | RangeError | RequestFailed | MalformedResponse

text \<open>ToBoolean: \<^verbatim>\<open>undefined\<close>, \<^verbatim>\<open>null\<close>, \<^verbatim>\<open>false\<close>, \<^verbatim>\<open>0\<close> and \<^verbatim>\<open>''\<close> are falsy; arrays and
  objects are truthy.\<close>

fun truthy :: "jsval \<Rightarrow> bool" where
  "truthy JUndefined = False"
| "truthy JNull = False"
| "truthy (JBool b) = b"
| "truthy (JNum n) = (n \<noteq> 0)"
| "truthy (JStr s) = (s \<noteq> [])"
| "truthy (JArr xs) = True"
| "truthy (JObj kvs) = True"

definition digitChar :: "nat \<Rightarrow> char" where
  "digitChar d = char_of (48 + d)"

fun showNat :: "nat \<Rightarrow> string" where
  "showNat n = (if n < 10 then [digitChar n] else showNat (n div 10) @ [digitChar (n mod 10)])"

declare showNat.simps [simp del]

definition showInt :: "int \<Rightarrow> string" where
  "showInt n = (if n < 0 then ''-'' @ showNat (nat (- n)) else showNat (nat n))"

text \<open>\<^verbatim>\<open>Number.prototype.toString\<close>: an integer below \<open>2^53\<close> in absolute value is printed
  with all its decimal digits; any other number is printed by the host.\<close>

definition numberToString :: "host \<Rightarrow> rat \<Rightarrow> string" where
  "numberToString h n =
     (if n = of_int \<lfloor>n\<rfloor> \<and> \<bar>n\<bar> < 2 ^ 53 then showInt \<lfloor>n\<rfloor> else numberText h n)"

text \<open>\<^verbatim>\<open>Array.prototype.join\<close> on the strings of the elements.\<close>

fun joinWith :: "string \<Rightarrow> string list \<Rightarrow> string" where
  "joinWith sep [] = []"
| "joinWith sep [s] = s"
| "joinWith sep (s # ss) = s @ sep @ joinWith sep ss"

text \<open>The results of a sequence of steps, or the first error among them.\<close>

fun sequence :: "(error + 'a) list \<Rightarrow> error + 'a list" where
  "sequence [] = Inr []"
| "sequence (r # rs) =
     (case r of
        Inl e \<Rightarrow> Inl e
      | Inr x \<Rightarrow> (case sequence rs of Inl e \<Rightarrow> Inl e | Inr xs \<Rightarrow> Inr (x # xs)))"

text \<open>
  ToString, as a template literal applies it to an interpolated value. An array is joined
  with commas, an absent or \<^verbatim>\<open>null\<close> element giving the empty string. An object is
  converted by \<^verbatim>\<open>Object.prototype.toString\<close>, unless it has an own property \<^verbatim>\<open>toString\<close>: a
  JSON value is no function, \<^verbatim>\<open>Object.prototype.valueOf\<close> returns the object itself, and
  the conversion raises a \<^verbatim>\<open>TypeError\<close>. ToNumber and the \<^verbatim>\<open>Date\<close> constructor convert an
  array or object to a primitive by the same two methods and raise on the same values.
\<close>

fun toString :: "host \<Rightarrow> jsval \<Rightarrow> error + string" where
  "toString h JUndefined = Inr ''undefined''"
| "toString h JNull = Inr ''null''"
| "toString h (JBool b) = Inr (if b then ''true'' else ''false'')"
| "toString h (JNum n) = Inr (numberToString h n)"
| "toString h (JStr s) = Inr s"
| "toString h (JArr xs) =
     (case sequence (map (\<lambda>x. if x = JUndefined \<or> x = JNull then Inr [] else toString h x) xs) of
        Inl e \<Rightarrow> Inl e
      | Inr ss \<Rightarrow> Inr (joinWith '','' ss))"
| "toString h (JObj kvs) =
     (if ''toString'' \<in> fst ` set kvs then Inl TypeError else Inr ''[object Object]'')"

text \<open>
  Reading a property. The formatter reads \<^verbatim>\<open>body\<close>, \<^verbatim>\<open>author\<close>, \<^verbatim>\<open>quotedMsg\<close>, \<^verbatim>\<open>notifyName\<close> and
  \<^verbatim>\<open>length\<close>: an object has them if they are among its own properties, a string and an
  array have \<^verbatim>\<open>length\<close>, and no prototype provides any of them. Reading a property of
  \<^verbatim>\<open>undefined\<close> or \<^verbatim>\<open>null\<close> raises a \<^verbatim>\<open>TypeError\<close>.
\<close>

fun readProp :: "jsval \<Rightarrow> string \<Rightarrow> jsval" where
  "readProp (JObj kvs) k = (case map_of (rev kvs) k of None \<Rightarrow> JUndefined | Some v \<Rightarrow> v)"
| "readProp (JStr s) k = (if k = ''length'' then JNum (of_nat (length s)) else JUndefined)"
| "readProp (JArr xs) k = (if k = ''length'' then JNum (of_nat (length xs)) else JUndefined)"
| "readProp v k = JUndefined"

definition getProp :: "jsval \<Rightarrow> string \<Rightarrow> error + jsval" where
  "getProp v k = (if v = JUndefined \<or> v = JNull then Inl TypeError else Inr (readProp v k))"

text \<open>The code units below 256 that \<^verbatim>\<open>String.prototype.trim\<close> strips.\<close>

definition isSpace :: "char \<Rightarrow> bool" where
  "isSpace c = (of_char c \<in> {9, 10, 11, 12, 13, 32, 160 :: nat})"

definition trim :: "string \<Rightarrow> string" where
  "trim s = rev (dropWhile isSpace (rev (dropWhile isSpace s)))"

definition padStart2 :: "string \<Rightarrow> string" where
  "padStart2 s = replicate (2 - length s) CHR ''0'' @ s"

section \<open>lib/formatting.js\<close>

text \<open>
  \<^verbatim>\<open>const date = new Date(msg.timestamp)\<close>: the constructor converts an array or object to a
  primitive first, which can raise; the date itself is the host's.
\<close>

definition newDate :: "host \<Rightarrow> jsval \<Rightarrow> error + (nat \<times> nat) option" where
  "newDate h v = (case toString h v of Inl e \<Rightarrow> Inl e | Inr s \<Rightarrow> Inr (localTime h v))"

definition timeStr :: "(nat \<times> nat) option \<Rightarrow> string" where
  "timeStr d = (case d of
      None \<Rightarrow> ''NaN'' @ '':'' @ padStart2 ''NaN''
    | Some (h, m) \<Rightarrow> showNat h @ '':'' @ padStart2 (showNat m))"

text \<open>
  \<^verbatim>\<open>let author = msg.author; if (author && author.includes('@')) author = author.split('@')[0];\<close>
  A truthy number, boolean or object has no callable \<^verbatim>\<open>includes\<close>: the call raises. An
  array has \<^verbatim>\<open>includes\<close> and no \<^verbatim>\<open>split\<close>: the second call raises when the string \<^verbatim>\<open>'@'\<close> is
  an element.
\<close>

fun authorPart :: "jsval \<Rightarrow> error + jsval" where
  "authorPart (JStr s) =
     (if s \<noteq> [] \<and> CHR ''@'' \<in> set s then Inr (JStr (takeWhile (\<lambda>c. c \<noteq> CHR ''@'') s))
      else Inr (JStr s))"
| "authorPart (JArr xs) = (if JStr ''@'' \<in> set xs then Inl TypeError else Inr (JArr xs))"
| "authorPart a = (if truthy a then Inl TypeError else Inr a)"

text \<open>
  \<^verbatim>\<open>x > 60\<close>: the operand is converted to a number; \<^verbatim>\<open>undefined\<close> gives \<^verbatim>\<open>NaN\<close>, \<^verbatim>\<open>null\<close> and the
  booleans give 0 or 1, a string is converted by the host, an array or object is first
  converted to a string.
\<close>

fun greaterThan60 :: "host \<Rightarrow> jsval \<Rightarrow> error + bool" where
  "greaterThan60 h JUndefined = Inr False"
| "greaterThan60 h JNull = Inr False"
| "greaterThan60 h (JBool b) = Inr False"
| "greaterThan60 h (JNum n) = Inr (60 < n)"
| "greaterThan60 h (JStr s) = Inr (exceeds60 h s)"
| "greaterThan60 h v = (case toString h v of Inl e \<Rightarrow> Inl e | Inr s \<Rightarrow> Inr (exceeds60 h s))"

text \<open>
  \<^verbatim>\<open>msg.quotedMsg.body.length > 60 ? msg.quotedMsg.body.substring(0, 60) + '...' : msg.quotedMsg.body\<close>.
  Reading \<^verbatim>\<open>length\<close> of \<^verbatim>\<open>undefined\<close> or \<^verbatim>\<open>null\<close> raises; a number or boolean has no
  \<^verbatim>\<open>length\<close>, the comparison is false and the value itself is the preview; only a string
  has a callable \<^verbatim>\<open>substring\<close>, so an array or object whose \<^verbatim>\<open>length\<close> exceeds 60 raises.
\<close>

definition quotedPreview :: "host \<Rightarrow> jsval \<Rightarrow> error + jsval" where
  "quotedPreview h quotedBody =
     (case getProp quotedBody ''length'' of
        Inl e \<Rightarrow> Inl e
      | Inr len \<Rightarrow>
          (case greaterThan60 h len of
             Inl e \<Rightarrow> Inl e
           | Inr longer \<Rightarrow>
               if longer then
                 (case quotedBody of JStr s \<Rightarrow> Inr (JStr (take 60 s @ ''...'')) | _ \<Rightarrow> Inl TypeError)
               else Inr quotedBody))"

text \<open>
  \<^verbatim>\<open>replyContext\<close>: empty unless \<^verbatim>\<open>msg.quotedMsg\<close> is truthy; the template literal converts
  the quoted author, then the preview, to strings.
\<close>

definition replyContext :: "host \<Rightarrow> jsval \<Rightarrow> error + string" where
  "replyContext h quoted =
     (if \<not> truthy quoted then Inr []
      else case quotedPreview h (readProp quoted ''body'') of
        Inl e \<Rightarrow> Inl e
      | Inr preview \<Rightarrow>
          (case toString h (readProp quoted ''author'') of
             Inl e \<Rightarrow> Inl e
           | Inr quotedAuthor \<Rightarrow>
               (case toString h preview of
                  Inl e \<Rightarrow> Inl e
                | Inr previewStr \<Rightarrow>
                    Inr ('' [replying to '' @ quotedAuthor @ '': '' @ [CHR 0x22] @ previewStr
                         @ [CHR 0x22] @ '']''))))"

text \<open>
  \<^verbatim>\<open>formatMessageCompact\<close>. A truthy body that is no string has no callable \<^verbatim>\<open>trim\<close>: the
  call raises.
\<close>

definition formatMessageCompact :: "host \<Rightarrow> message \<Rightarrow> error + string option" where
  "formatMessageCompact h msg =
     (if \<not> truthy (body msg) then Inr None
      else case body msg of
        JStr b \<Rightarrow>
          if trim b = [] \<or> truthy (hasMedia msg) then Inr None
          else
            (case newDate h (timestamp msg) of
               Inl e \<Rightarrow> Inl e
             | Inr date \<Rightarrow>
                 (let maxMsgLength = 200;
                      bodyStr = (if length b > maxMsgLength then take maxMsgLength b @ ''...'' else b)
                  in case authorPart (author msg) of
                       Inl e \<Rightarrow> Inl e
                     | Inr authorName \<Rightarrow>
                         (case replyContext h (quotedMsg msg) of
                            Inl e \<Rightarrow> Inl e
                          | Inr context \<Rightarrow>
                              (case toString h authorName of
                                 Inl e \<Rightarrow> Inl e
                               | Inr authorStr \<Rightarrow>
                                   Inr (Some (''['' @ timeStr date @ ''] '' @ authorStr
                                              @ '': '' @ bodyStr @ context))))))
      | _ \<Rightarrow> Inl TypeError)"

text \<open>\<^verbatim>\<open>a || b\<close>\<close>

definition orElse :: "jsval \<Rightarrow> jsval \<Rightarrow> jsval" where
  "orElse a b = (if truthy a then a else b)"

text \<open>
  \<^verbatim>\<open>quotedInfo\<close>: \<^verbatim>\<open>null\<close> unless \<^verbatim>\<open>msg._data && msg._data.quotedMsg\<close> is truthy, and then the
  object \<^verbatim>\<open>{author: q.notifyName || 'Unknown', body: q.body || ''}\<close>.
\<close>

definition quotedInfo :: "jsval \<Rightarrow> jsval" where
  "quotedInfo rawDataValue =
     (if truthy rawDataValue \<and> truthy (readProp rawDataValue ''quotedMsg'') then
        (let q = readProp rawDataValue ''quotedMsg''
         in JObj [(''author'', orElse (readProp q ''notifyName'') (JStr ''Unknown'')),
                  (''body'', orElse (readProp q ''body'') (JStr []))])
      else JNull)"

text \<open>
  \<^verbatim>\<open>msg.fromMe ? 'You' : (msg._data.notifyName || msg.author || 'Unknown')\<close>: reading
  \<^verbatim>\<open>notifyName\<close> of an absent or \<^verbatim>\<open>null\<close> \<^verbatim>\<open>_data\<close> raises.
\<close>

definition authorOf :: "rawMessage \<Rightarrow> error + jsval" where
  "authorOf msg =
     (if truthy (rawFromMe msg) then Inr (JStr ''You'')
      else case getProp (rawData msg) ''notifyName'' of
        Inl e \<Rightarrow> Inl e
      | Inr notifyName \<Rightarrow> Inr (orElse notifyName (orElse (rawAuthor msg) (JStr ''Unknown''))))"

text \<open>
  \<^verbatim>\<open>formatMessage\<close>. In \<^verbatim>\<open>new Date(msg.timestamp * 1000).toISOString()\<close> the product converts
  an array or object to a primitive, which can raise, and \<^verbatim>\<open>toISOString\<close> raises on an
  invalid date. The result is the argument itself when \<^verbatim>\<open>isFormatted\<close> is set, and a new
  record otherwise.
\<close>

definition formatMessage :: "host \<Rightarrow> rawMessage \<Rightarrow> bool \<Rightarrow> error + (rawMessage + message)" where
  "formatMessage h msg isFormatted =
     (if isFormatted then Inr (Inl msg)
      else
        (let quotedInfo = quotedInfo (rawData msg)
         in case toString h (rawTimestamp msg) of
              Inl e \<Rightarrow> Inl e
            | Inr s \<Rightarrow>
                (case isoString h (rawTimestamp msg) of
                   None \<Rightarrow> Inl RangeError
                 | Some stamp \<Rightarrow>
                     (case authorOf msg of
                        Inl e \<Rightarrow> Inl e
                      | Inr authorName \<Rightarrow>
                          Inr (Inr \<lparr>timestamp = JStr stamp, from = rawFrom msg, author = authorName,
                                    body = rawBody msg, hasMedia = rawHasMedia msg,
                                    fromMe = rawFromMe msg, quotedMsg = quotedInfo\<rparr>)))))"

section \<open>lib/tokenizer.js\<close>

text \<open>
  The encoder is tiktoken's; \<open>tok\<close> is the number of tokens it returns for a text.
  Of the configuration only \<^verbatim>\<open>config.llm.maxContextForMessages\<close> is read.
\<close>

record config =
  maxContextForMessages :: int

definition defaultConfig :: config where
  "defaultConfig = \<lparr>maxContextForMessages = 3000\<rparr>"

definition countTokens :: "(string \<Rightarrow> nat) \<Rightarrow> string \<Rightarrow> nat" where
  "countTokens tok text = (if text = [] then 0 else tok text)"

definition maxChunkTokens :: "config \<Rightarrow> int" where
  "maxChunkTokens cfg = (let systemOverheadTokens = 500
                         in min 2000 (maxContextForMessages cfg - systemOverheadTokens))"

definition truncationMarker :: string where
  "truncationMarker = ''... [message truncated due to length]''"

text \<open>\<^verbatim>\<open>messages.map(formatter)\<close>: the first call that raises ends the map.\<close>

fun formatAll :: "('m \<Rightarrow> error + string option) \<Rightarrow> 'm list \<Rightarrow> error + string option list" where
  "formatAll formatter [] = Inr []"
| "formatAll formatter (m # ms) =
     (case formatter m of
        Inl e \<Rightarrow> Inl e
      | Inr r \<Rightarrow> (case formatAll formatter ms of Inl e \<Rightarrow> Inl e | Inr rs \<Rightarrow> Inr (r # rs)))"

definition nonNull :: "string option list \<Rightarrow> string list" where
  "nonNull rs = List.map_filter id rs"

text \<open>
  One turn of the loop over the formatted messages. \<^verbatim>\<open>msgTokens > maxChunkTokens * 0.75\<close> is
  \<open>3 * maxChunkTokens < 4 * msgTokens\<close>; \<^verbatim>\<open>Math.floor(maxChunkTokens * 0.5)\<close> is \<open>div 2\<close>, and
  \<^verbatim>\<open>substring(0, n)\<close> takes nothing for a negative \<open>n\<close>.
\<close>

definition chunkStep ::
  "(string \<Rightarrow> nat) \<Rightarrow> int \<Rightarrow> string list list \<times> string list \<times> nat \<Rightarrow> string
     \<Rightarrow> string list list \<times> string list \<times> nat" where
  "chunkStep tok maxTokens st formattedMsg =
     (case st of (chunks, currentChunk, currentTokenCount) \<Rightarrow>
        let msgTokens = countTokens tok formattedMsg;
            (chunks1, chunk1, count1) =
               (if int currentTokenCount + int msgTokens > maxTokens \<and> currentChunk \<noteq> []
                then (chunks @ [currentChunk], [], 0)
                else (chunks, currentChunk, currentTokenCount));
            chunk2 = chunk1 @ [formattedMsg];
            count2 = count1 + msgTokens
        in if 3 * maxTokens < 4 * int msgTokens
           then (let chunk3 = chunk2[length chunk2 - 1 :=
                                 take (nat (maxTokens div 2)) formattedMsg @ truncationMarker]
                 in (chunks1, chunk3, sum_list (map (countTokens tok) chunk3)))
           else (chunks1, chunk2, count2))"

definition createTokenBasedChunks ::
  "(string \<Rightarrow> nat) \<Rightarrow> config \<Rightarrow> ('m \<Rightarrow> error + string option) \<Rightarrow> 'm list
     \<Rightarrow> error + string list list" where
  "createTokenBasedChunks tok cfg formatter messages =
     (case formatAll formatter messages of
        Inl e \<Rightarrow> Inl e
      | Inr formatted \<Rightarrow>
          (case foldl (chunkStep tok (maxChunkTokens cfg)) ([], [], 0) (nonNull formatted) of
             (chunks, currentChunk, currentTokenCount) \<Rightarrow>
               Inr (if currentChunk \<noteq> [] then chunks @ [currentChunk] else chunks)))"

section \<open>services/llm.js\<close>

text \<open>\<^verbatim>\<open>chunk.join('\n')\<close>\<close>

fun joinLines :: "string list \<Rightarrow> string" where
  "joinLines [] = []"
| "joinLines [l] = l"
| "joinLines (l # ls) = l @ ''\<newline>'' @ joinLines ls"

text \<open>
  The pass over \<^verbatim>\<open>messageChunks\<close> that halves a chunk of more than 2000 tokens.
  After \<^verbatim>\<open>splice\<close>, \<^verbatim>\<open>i--; continue\<close> and the loop's \<^verbatim>\<open>i++\<close> leave \<open>i\<close> where it was, at the
  first half. The loop need not end: the result is \<open>None\<close> when it does not.
\<close>

partial_function (option) splitLoop ::
  "(string \<Rightarrow> nat) \<Rightarrow> string list list \<Rightarrow> nat \<Rightarrow> string list list option" where
  "splitLoop tok messageChunks i =
     (if i < length messageChunks then
        (let chunk = messageChunks ! i;
             chatText = joinLines chunk;
             totalTokens = countTokens tok chatText
         in if totalTokens > 2000 then
              (let midpoint = length chunk div 2;
                   firstHalf = take midpoint chunk;
                   secondHalf = drop midpoint chunk
               in splitLoop tok
                    (take i messageChunks @ [firstHalf, secondHalf] @ drop (Suc i) messageChunks) i)
            else splitLoop tok messageChunks (Suc i))
      else Some messageChunks)"

declare splitLoop.simps [code]

text \<open>The prompt templates and system instructions, as the template literals spell them.\<close>

definition getInitialPrompt :: "string \<Rightarrow> string" where
  \<open>getInitialPrompt chatText =
     ''You are analyzing WhatsApp messages from a group conversation.\<newline>'' @
     ''\<newline>'' @
     ''Summarize ONLY the information explicitly present in these chat messages. Focus on:\<newline>'' @
     ''- Main topics discussed with DIRECT QUOTES when possible\<newline>'' @
     ''- Factual information shared by participants (avoid interpretations)\<newline>'' @
     ''- Questions asked and their exact answers if provided\<newline>'' @
     ''- Decisions that were explicitly stated\<newline>'' @
     ''- DO NOT add any information, names, or topics not directly mentioned in the messages\<newline>'' @
     ''\<newline>'' @
     ''IMPORTANT: When you see [replying to X: "message"] in a message, this indicates the message is a reply to a previous message by user X. Use this reply context to:\<newline>'' @
     ''- Better understand conversation threads\<newline>'' @
     ''- Connect related messages even when they're separated by other messages\<newline>'' @
     ''- Identify question-answer pairs when someone replies to a question\<newline>'' @
     ''- Follow the flow of discussions on specific topics\<newline>'' @
     ''\<newline>'' @
     ''If something is unclear or ambiguous, indicate this with phrases like "possibly discussing" or "unclear context about". If you're unsure about a topic or detail, acknowledge the uncertainty rather than guessing.\<newline>'' @
     ''\<newline>'' @
     ''Format with clear topic headings and bullet points using only information from the chat.\<newline>'' @
     ''\<newline>'' @
     ''CHAT MESSAGES:\<newline>'' @
     chatText @
     ''\<newline>\<newline>'' @
     ''SUMMARY:''\<close>

definition getContinuationPrompt :: "string \<Rightarrow> string \<Rightarrow> string" where
  \<open>getContinuationPrompt batchSummary chatText =
     ''Continue analyzing this WhatsApp conversation.\<newline>'' @
     ''\<newline>'' @
     ''Current summary:\<newline>'' @
     batchSummary @
     ''\<newline>\<newline>'' @
     ''CRITICAL INSTRUCTIONS:\<newline>'' @
     ''- Include ONLY information present in these new messages\<newline>'' @
     ''- If the new messages contradict the summary, mention both perspectives explicitly\<newline>'' @
     ''- Use "according to the conversation" instead of assuming facts\<newline>'' @
     ''- Maintain uncertainty markers like "possibly" or "appears to be" \<newline>'' @
     ''- Do not add any details that seem speculative unless directly quoted\<newline>'' @
     ''\<newline>'' @
     ''Incorporate these additional messages while maintaining the same format and structure:\<newline>'' @
     ''- Add new topics if they appear\<newline>'' @
     ''- Expand on previously mentioned topics with new information\<newline>'' @
     ''- Note any resolution to previously mentioned questions or discussions\<newline>'' @
     ''\<newline>'' @
     ''ADDITIONAL MESSAGES:\<newline>'' @
     chatText @
     ''\<newline>\<newline>'' @
     ''UPDATED SUMMARY:''\<close>

definition getConsolidationPrompt :: "string \<Rightarrow> string \<Rightarrow> string" where
  \<open>getConsolidationPrompt fullSummary batchSummary =
     ''I have two summaries from different parts of the same WhatsApp conversation. Create a cohesive summary that integrates both.\<newline>'' @
     ''\<newline>'' @
     ''CRITICAL INSTRUCTIONS:\<newline>'' @
     ''- Include ONLY information present in either summary\<newline>'' @
     ''- If the summaries contradict each other, mention both perspectives explicitly\<newline>'' @
     ''- Use "according to the conversation" instead of assuming facts\<newline>'' @
     ''- Maintain uncertainty markers like "possibly" or "appears to be" from the original summaries\<newline>'' @
     ''- Remove any details that seem speculative unless directly quoted\<newline>'' @
     ''\<newline>'' @
     ''FORMAT REQUIREMENTS:\<newline>'' @
     ''1. Begin with a high-level overview (2-3 sentences) of CONFIRMED topics only\<newline>'' @
     ''2. Organize by main discussion topics with clear headings\<newline>'' @
     ''3. Use bullet points for key points under each topic\<newline>'' @
     ''4. Highlight any decisions made or action items\<newline>'' @
     ''5. Maintain chronological flow where relevant\<newline>'' @
     ''\<newline>'' @
     ''FIRST SUMMARY:\<newline>'' @
     fullSummary @
     ''\<newline>\<newline>'' @
     ''SECOND SUMMARY:\<newline>'' @
     batchSummary @
     ''\<newline>\<newline>'' @
     ''COMBINED SUMMARY:''\<close>

definition getRefinementPrompt :: "string \<Rightarrow> string" where
  \<open>getRefinementPrompt fullSummary =
     ''You're creating a final executive summary of a WhatsApp group conversation.\<newline>'' @
     ''\<newline>'' @
     ''CRITICAL INSTRUCTIONS:\<newline>'' @
     ''- Do NOT introduce new information not present in the draft summary\<newline>'' @
     ''- Maintain all uncertainty markers (like "possibly" or "appears")\<newline>'' @
     ''- Keep all contradictory perspectives mentioned in the original\<newline>'' @
     ''- Clearly separate facts from opinions in the conversation\<newline>'' @
     ''\<newline>'' @
     ''Please refine the following summary into a professional, well-organized report format with:\<newline>'' @
     ''\<newline>'' @
     ''1. OVERVIEW: A brief introduction and high-level summary (1-2 paragraphs)\<newline>'' @
     ''2. KEY TOPICS: Main discussion areas with bullet points for important details\<newline>'' @
     ''3. DECISIONS & ACTION ITEMS: Clear list of any decisions made and actions assigned (if any)\<newline>'' @
     ''4. NOTABLE MENTIONS: Any important links, events, or references shared in the chat\<newline>'' @
     ''\<newline>'' @
     ''Keep the tone professional and focus on clarity and readability.\<newline>'' @
     ''\<newline>'' @
     ''DRAFT SUMMARY:\<newline>'' @
     fullSummary @
     ''\<newline>\<newline>'' @
     ''REFINED SUMMARY:''\<close>

definition getSummarizationSystemPrompt :: string where
  \<open>getSummarizationSystemPrompt =
     ''You are an expert analyst who creates clear, structured summaries of group conversations. ONLY include information explicitly stated in the messages. Do not add any information not directly present in the input.''\<close>

definition getConsolidationSystemPrompt :: string where
  \<open>getConsolidationSystemPrompt =
     ''You are an expert analyst who creates clear, structured summaries of group conversations. Only include information explicitly stated in the summaries.''\<close>

definition getRefinementSystemPrompt :: string where
  \<open>getRefinementSystemPrompt =
     ''You are an expert analyst who creates clear, structured executive summaries. Only include information explicitly stated in the original summary.''\<close>

definition fallbackMessage :: string where
  \<open>fallbackMessage =
     ''Failed to generate summary. Please check if LMStudio is running locally on port 1234 or if input is too large for model context.''\<close>


text \<open>
  A completion request carries the system instruction and the user prompt (the model name,
  temperature and token cap are constants of the configuration). The completion service
  is the parameter \<open>llm\<close>: given the requests sent so far and the present one, the call is
  rejected (\<^verbatim>\<open>axios.post\<close> raises), or answers without \<^verbatim>\<open>choices[0].message\<close> (reading
  \<^verbatim>\<open>response.data.choices[0].message.content\<close> raises), or answers with a text.
  The trace lists the requests sent, in order.
\<close>

record request =
  systemContent :: string
  userContent :: string

datatype reply = Rejected | NoChoices | Content string

type_synonym client = "request list \<Rightarrow> request \<Rightarrow> reply"

definition post :: "client \<Rightarrow> request list \<Rightarrow> request \<Rightarrow> (error + string) \<times> request list" where
  "post llm trace req =
     (case llm trace req of
        Rejected \<Rightarrow> (Inl RequestFailed, trace @ [req])
      | NoChoices \<Rightarrow> (Inl MalformedResponse, trace @ [req])
      | Content text \<Rightarrow> (Inr text, trace @ [req]))"

text \<open>The prompt for the chunk at index \<open>i\<close> of its batch.\<close>

definition chunkPrompt :: "nat \<Rightarrow> string \<Rightarrow> string \<Rightarrow> string" where
  "chunkPrompt i batchSummary chatText =
     (if i = 0 \<and> batchSummary = [] then getInitialPrompt chatText
      else getContinuationPrompt batchSummary chatText)"

text \<open>
  The loop over \<^verbatim>\<open>currentBatchChunks\<close>, from index \<open>i\<close> on, with the batch summary so far.
  A prompt of more than 3800 tokens ends the loop (\<^verbatim>\<open>break\<close>) with the summary as it is.
\<close>

fun processChunks ::
  "(string \<Rightarrow> nat) \<Rightarrow> client \<Rightarrow> nat \<Rightarrow> string list list \<Rightarrow> string \<Rightarrow> request list
     \<Rightarrow> (error + string) \<times> request list" where
  "processChunks tok llm i [] batchSummary trace = (Inr batchSummary, trace)"
| "processChunks tok llm i (chunk # rest) batchSummary trace =
     (let chatText = joinLines chunk;
          prompt = chunkPrompt i batchSummary chatText;
          promptTokens = countTokens tok prompt
      in if promptTokens > 3800 then (Inr batchSummary, trace)
         else
           (case post llm trace \<lparr>systemContent = getSummarizationSystemPrompt, userContent = prompt\<rparr> of
              (Inl e, trace1) \<Rightarrow> (Inl e, trace1)
            | (Inr chunkSummary, trace1) \<Rightarrow>
                processChunks tok llm (Suc i) rest
                  (if i = 0 then chunkSummary else batchSummary @ ''\<newline>\<newline>'' @ chunkSummary)
                  trace1))"

definition BATCH_SIZE :: nat where
  "BATCH_SIZE = 2"

text \<open>\<^verbatim>\<open>Math.ceil(messageChunks.length / BATCH_SIZE)\<close>\<close>

definition batchCount :: "'a list \<Rightarrow> nat" where
  "batchCount messageChunks = (length messageChunks + BATCH_SIZE - 1) div BATCH_SIZE"

text \<open>\<^verbatim>\<open>messageChunks.slice(startIdx, endIdx)\<close>\<close>

definition currentBatchChunks :: "'a list \<Rightarrow> nat \<Rightarrow> 'a list" where
  "currentBatchChunks messageChunks batchIndex =
     (let startIdx = batchIndex * BATCH_SIZE;
          endIdx = min (startIdx + BATCH_SIZE) (length messageChunks)
      in take (endIdx - startIdx) (drop startIdx messageChunks))"

text \<open>
  The loop over the batches, from \<open>batchIndex\<close> on, with the running summary. A batch is
  consolidated into the running summary unless that summary is the empty string.
\<close>

function batchLoop ::
  "(string \<Rightarrow> nat) \<Rightarrow> client \<Rightarrow> string list list \<Rightarrow> nat \<Rightarrow> string \<Rightarrow> request list
     \<Rightarrow> (error + string) \<times> request list" where
  "batchLoop tok llm messageChunks batchIndex fullSummary trace =
     (if batchIndex < batchCount messageChunks then
        (case processChunks tok llm 0 (currentBatchChunks messageChunks batchIndex) [] trace of
           (Inl e, trace1) \<Rightarrow> (Inl e, trace1)
         | (Inr batchSummary, trace1) \<Rightarrow>
             if fullSummary = [] then
               batchLoop tok llm messageChunks (Suc batchIndex) batchSummary trace1
             else
               (case post llm trace1
                       \<lparr>systemContent = getConsolidationSystemPrompt,
                        userContent = getConsolidationPrompt fullSummary batchSummary\<rparr> of
                  (Inl e, trace2) \<Rightarrow> (Inl e, trace2)
                | (Inr text, trace2) \<Rightarrow>
                    batchLoop tok llm messageChunks (Suc batchIndex) text trace2))
      else (Inr fullSummary, trace))"
  by pat_completeness auto
termination
  by (relation "measure (\<lambda>(tok, llm, messageChunks, batchIndex, fullSummary, trace).
                  batchCount messageChunks - batchIndex)") auto

declare batchLoop.simps [simp del]

text \<open>The final refinement, for more chunks than one batch holds.\<close>

definition refine ::
  "client \<Rightarrow> string list list \<Rightarrow> string \<Rightarrow> request list \<Rightarrow> (error + string) \<times> request list" where
  "refine llm messageChunks fullSummary trace =
     (if length messageChunks > BATCH_SIZE then
        post llm trace \<lparr>systemContent = getRefinementSystemPrompt,
                        userContent = getRefinementPrompt fullSummary\<rparr>
      else (Inr fullSummary, trace))"

text \<open>
  The body of the \<^verbatim>\<open>try\<close> block: the value returned or the error raised, with the trace;
  \<open>None\<close> when the splitting pass does not end.
\<close>

definition summarizeBody ::
  "(string \<Rightarrow> nat) \<Rightarrow> config \<Rightarrow> host \<Rightarrow> client \<Rightarrow> message list
     \<Rightarrow> ((error + string) \<times> request list) option" where
  "summarizeBody tok cfg host llm messages =
     (case createTokenBasedChunks tok cfg (formatMessageCompact host) messages of
        Inl e \<Rightarrow> Some (Inl e, [])
      | Inr chunks0 \<Rightarrow>
          (case splitLoop tok chunks0 0 of
             None \<Rightarrow> None
           | Some messageChunks \<Rightarrow>
               Some (case batchLoop tok llm messageChunks 0 [] [] of
                       (Inl e, trace) \<Rightarrow> (Inl e, trace)
                     | (Inr fullSummary, trace) \<Rightarrow> refine llm messageChunks fullSummary trace)))"

text \<open>\<^verbatim>\<open>summarizeWithLLM\<close>: the \<^verbatim>\<open>catch\<close> clause turns every error into the fallback message.\<close>

definition summarizeWithLLM ::
  "(string \<Rightarrow> nat) \<Rightarrow> config \<Rightarrow> host \<Rightarrow> client \<Rightarrow> message list
     \<Rightarrow> (string \<times> request list) option" where
  "summarizeWithLLM tok cfg host llm messages =
     (case summarizeBody tok cfg host llm messages of
        None \<Rightarrow> None
      | Some (Inl e, trace) \<Rightarrow> Some (fallbackMessage, trace)
      | Some (Inr summary, trace) \<Rightarrow> Some (summary, trace))"

section \<open>Vocabulary of the properties\<close>

fun isStr :: "jsval \<Rightarrow> bool" where
  "isStr (JStr s) = True"
| "isStr v = False"

fun isBool :: "jsval \<Rightarrow> bool" where
  "isBool (JBool b) = True"
| "isBool v = False"

fun isNum :: "jsval \<Rightarrow> bool" where
  "isNum (JNum n) = True"
| "isNum v = False"

fun isObject :: "jsval \<Rightarrow> bool" where
  "isObject (JObj kvs) = True"
| "isObject v = False"

text \<open>A value that is absent, \<^verbatim>\<open>null\<close>, a boolean, a number or a string.\<close>

fun isPrimitive :: "jsval \<Rightarrow> bool" where
  "isPrimitive (JArr xs) = False"
| "isPrimitive (JObj kvs) = False"
| "isPrimitive v = True"

text \<open>The message shape that \<^verbatim>\<open>formatMessage\<close> produces: a primitive timestamp, string author
  and body, boolean media flag, and a quoted message that is \<^verbatim>\<open>null\<close>, absent, or an object
  with a string author and a string body.\<close>

definition wellTyped :: "message \<Rightarrow> bool" where
  "wellTyped msg =
     (isPrimitive (timestamp msg) \<and> isStr (author msg) \<and> isStr (body msg) \<and>
      isBool (hasMedia msg) \<and>
      (quotedMsg msg = JNull \<or> quotedMsg msg = JUndefined \<or>
       (isObject (quotedMsg msg) \<and> isStr (readProp (quotedMsg msg) ''author'')
          \<and> isStr (readProp (quotedMsg msg) ''body''))))"

text \<open>Records the formatter gets through: a primitive timestamp, body and author absent,
  falsy or strings, and a quoted message that is falsy or an object whose author is a
  primitive and whose body is a string, a number or a boolean.\<close>

definition formattable :: "message \<Rightarrow> bool" where
  "formattable msg =
     (isPrimitive (timestamp msg) \<and>
      (\<not> truthy (body msg) \<or> isStr (body msg)) \<and>
      (\<not> truthy (author msg) \<or> isStr (author msg)) \<and>
      (\<not> truthy (quotedMsg msg) \<or>
       (isObject (quotedMsg msg) \<and> isPrimitive (readProp (quotedMsg msg) ''author'') \<and>
        (isStr (readProp (quotedMsg msg) ''body'') \<or> isNum (readProp (quotedMsg msg) ''body'')
           \<or> isBool (readProp (quotedMsg msg) ''body'')))))"

text \<open>A raw message whose \<^verbatim>\<open>_data\<close> is there.\<close>

definition hasData :: "jsval \<Rightarrow> bool" where
  "hasData v = (v \<noteq> JUndefined \<and> v \<noteq> JNull)"

text \<open>What the chunker's safety check makes of a formatted line.\<close>

definition safeguard :: "(string \<Rightarrow> nat) \<Rightarrow> int \<Rightarrow> string \<Rightarrow> string" where
  "safeguard tok maxTokens formattedMsg =
     (if 3 * maxTokens < 4 * int (countTokens tok formattedMsg)
      then take (nat (maxTokens div 2)) formattedMsg @ truncationMarker
      else formattedMsg)"

text \<open>A position of the splitting pass from which it cannot get away: at or after \<open>i\<close>
  there is a chunk of one line with more than 2000 tokens.\<close>

definition stuckAt :: "(string \<Rightarrow> nat) \<Rightarrow> string list list \<Rightarrow> nat \<Rightarrow> bool" where
  "stuckAt tok chunks i =
     (\<exists>j\<ge>i. j < length chunks \<and> length (chunks ! j) = 1
              \<and> 2000 < countTokens tok (joinLines (chunks ! j)))"

definition splitMeasure :: "string list list \<Rightarrow> nat \<Rightarrow> nat" where
  "splitMeasure chunks i =
     2 * sum_list (map (\<lambda>c. 2 * length c - 1) (drop i chunks)) + (length chunks - i)"

text \<open>Traces. A trace is answered when every request in it got a text back.\<close>

fun isContent :: "reply \<Rightarrow> bool" where
  "isContent (Content text) = True"
| "isContent r = False"

definition answered :: "client \<Rightarrow> request list \<Rightarrow> bool" where
  "answered llm trace = (\<forall>k<length trace. isContent (llm (take k trace) (trace ! k)))"

definition runShape :: "client \<Rightarrow> (error + string) \<times> request list \<Rightarrow> bool" where
  "runShape llm out =
     (case out of
        (Inr text, trace) \<Rightarrow> answered llm trace
      | (Inl e, trace) \<Rightarrow> trace \<noteq> [] \<and> answered llm (butlast trace)
                           \<and> \<not> isContent (llm (butlast trace) (last trace)))"

definition chunkRequest :: "(string \<Rightarrow> nat) \<Rightarrow> request \<Rightarrow> bool" where
  "chunkRequest tok req =
     (systemContent req = getSummarizationSystemPrompt \<and> countTokens tok (userContent req) \<le> 3800)"

definition batchRequest :: "(string \<Rightarrow> nat) \<Rightarrow> request \<Rightarrow> bool" where
  "batchRequest tok req =
     (chunkRequest tok req \<or> systemContent req = getConsolidationSystemPrompt)"

definition consolidationRequest :: "string \<Rightarrow> string \<Rightarrow> request" where
  "consolidationRequest fullSummary batchSummary =
     \<lparr>systemContent = getConsolidationSystemPrompt,
      userContent = getConsolidationPrompt fullSummary batchSummary\<rparr>"

definition consolidationCalls :: "request list \<Rightarrow> nat" where
  "consolidationCalls trace =
     length (filter (\<lambda>req. systemContent req = getConsolidationSystemPrompt) trace)"

definition refinementCalls :: "request list \<Rightarrow> nat" where
  "refinementCalls trace =
     length (filter (\<lambda>req. systemContent req = getRefinementSystemPrompt) trace)"

text \<open>No request of the trace was answered with the empty string.\<close>

definition nonEmptyReplies :: "client \<Rightarrow> request list \<Rightarrow> bool" where
  "nonEmptyReplies llm trace = (\<forall>k<length trace. llm (take k trace) (trace ! k) \<noteq> Content [])"

text \<open>What the pipeline does once the chunks are split: the batches, then the refinement.\<close>

definition afterSplit ::
  "(string \<Rightarrow> nat) \<Rightarrow> client \<Rightarrow> string list list \<Rightarrow> (error + string) \<times> request list" where
  "afterSplit tok llm messageChunks =
     (case batchLoop tok llm messageChunks 0 [] [] of
        (Inl e, trace) \<Rightarrow> (Inl e, trace)
      | (Inr fullSummary, trace) \<Rightarrow> refine llm messageChunks fullSummary trace)"

subsection \<open>Concrete inputs\<close>

text \<open>Stand-ins for the host: a clock that reads 9:05 and prints one date for every
  number, a tokenizer that counts one token for each code unit and one that counts two
  (as a byte-level encoder does on a script outside its merges), a configuration with a
  small chunk budget, and four services.\<close>

definition morningHost :: host where
  "morningHost =
     \<lparr>localTime = (\<lambda>t. Some (9, 5)),
      isoString = (\<lambda>t. case t of JNum n \<Rightarrow> Some ''2024-05-01T09:05:00.000Z'' | _ \<Rightarrow> None),
      exceeds60 = (\<lambda>s. False),
      numberText = (\<lambda>n. ''1e+21'')\<rparr>"

definition charTokens :: "string \<Rightarrow> nat" where
  "charTokens s = length s"

definition denseTokens :: "string \<Rightarrow> nat" where
  "denseTokens s = 2 * length s"

definition smallConfig :: config where
  "smallConfig = \<lparr>maxContextForMessages = 520\<rparr>"

definition echoClient :: client where
  "echoClient trace req = Content ''ok''"

definition silentClient :: client where
  "silentClient trace req = Content []"

definition verboseClient :: client where
  "verboseClient trace req = Content (replicate 900 CHR ''x'')"

definition flakyClient :: client where
  "flakyClient trace req = (if length trace = 1 then Rejected else Content ''ok'')"

definition greeting :: message where
  "greeting =
     \<lparr>timestamp = JStr ''2024-05-01T09:05:00.000Z'', from = JStr ''chat'', author = JStr ''a'',
      body = JStr ''hi'', hasMedia = JBool False, fromMe = JBool False, quotedMsg = JNull\<rparr>"

text \<open>A reply whose quoted message has no body, and one whose quoted body is an array
  of 61 strings.\<close>

definition replyWithoutBody :: message where
  "replyWithoutBody =
     \<lparr>timestamp = JStr ''2024-05-01T09:05:00.000Z'', from = JStr ''chat'', author = JStr ''alice'',
      body = JStr ''hello'', hasMedia = JBool False, fromMe = JBool False,
      quotedMsg = JObj [(''author'', JStr ''bob'')]\<rparr>"

definition replyWithArrayBody :: message where
  "replyWithArrayBody =
     \<lparr>timestamp = JStr ''2024-05-01T09:05:00.000Z'', from = JStr ''chat'', author = JStr ''alice'',
      body = JStr ''hello'', hasMedia = JBool False, fromMe = JBool False,
      quotedMsg = JObj [(''author'', JStr ''bob''), (''body'', JArr (replicate 61 (JStr ''x'')))]\<rparr>"

definition onlyMedia :: "message list" where
  "onlyMedia =
     [\<lparr>timestamp = JNum 0, from = JStr ''chat'', author = JStr ''alice'', body = JStr '' '',
       hasMedia = JBool False, fromMe = JBool False, quotedMsg = JNull\<rparr>,
      \<lparr>timestamp = JNum 0, from = JStr ''chat'', author = JStr ''bob'', body = JStr ''photo'',
       hasMedia = JBool True, fromMe = JBool False, quotedMsg = JNull\<rparr>]"

definition longAuthor :: message where
  "longAuthor =
     \<lparr>timestamp = JNum 0, from = JStr ''chat'', author = JStr (replicate 1600 CHR ''x''),
      body = JStr ''hello'', hasMedia = JBool False, fromMe = JBool False,
      quotedMsg = JNull\<rparr>"

text \<open>A raw message that quotes a message without body.\<close>

definition rawGreeting :: rawMessage where
  "rawGreeting =
     \<lparr>rawTimestamp = JNum 1714554300, rawFrom = JStr ''chat'', rawAuthor = JUndefined,
      rawBody = JStr ''hi'', rawHasMedia = JBool False, rawFromMe = JBool False,
      rawData = JObj [(''notifyName'', JStr ''a''),
                      (''quotedMsg'', JObj [(''notifyName'', JStr ''bob'')])]\<rparr>"

text \<open>The line of \<open>greeting\<close>, the traces of three runs, and a line of 700 code units.\<close>

definition oneRequest :: request where
  "oneRequest =
     \<lparr>systemContent = getSummarizationSystemPrompt, userContent = getInitialPrompt ''[9:05] a: hi''\<rparr>"

definition flakyTrace :: "request list" where
  "flakyTrace =
     [\<lparr>systemContent = getSummarizationSystemPrompt, userContent = getInitialPrompt ''[9:05] a: hi''\<rparr>,
      \<lparr>systemContent = getSummarizationSystemPrompt,
       userContent = getContinuationPrompt ''ok'' ''[9:05] a: hi''\<rparr>]"

definition echoTrace :: "request list" where
  "echoTrace =
     [\<lparr>systemContent = getSummarizationSystemPrompt, userContent = getInitialPrompt ''[9:05] a: hi''\<rparr>,
      \<lparr>systemContent = getSummarizationSystemPrompt,
       userContent = getContinuationPrompt ''ok'' ''[9:05] a: hi''\<rparr>,
      \<lparr>systemContent = getSummarizationSystemPrompt, userContent = getInitialPrompt ''[9:05] a: hi''\<rparr>,
      \<lparr>systemContent = getConsolidationSystemPrompt,
       userContent = getConsolidationPrompt (''ok'' @ ''\<newline>\<newline>'' @ ''ok'') ''ok''\<rparr>,
      \<lparr>systemContent = getRefinementSystemPrompt, userContent = getRefinementPrompt ''ok''\<rparr>]"

definition longLine :: string where
  "longLine = replicate 700 CHR ''x''"

section \<open>The formatter\<close>

lemma toString_primitive: "isPrimitive v \<Longrightarrow> \<exists>s. toString h v = Inr s"
  by (cases v) auto

lemma authorPart_ok:
  "\<not> truthy a \<or> isStr a \<Longrightarrow> \<exists>a'. authorPart a = Inr a' \<and> isPrimitive a'"
  by (cases a) auto

lemma quotedPreview_ok:
  assumes "isStr b \<or> isNum b \<or> isBool b"
  shows "\<exists>p. quotedPreview h b = Inr p \<and> isPrimitive p"
  using assms by (cases b) (auto simp: quotedPreview_def getProp_def)

lemma replyContext_ok:
  assumes "\<not> truthy q \<or>
       (isObject q \<and> isPrimitive (readProp q ''author'') \<and>
        (isStr (readProp q ''body'') \<or> isNum (readProp q ''body'') \<or> isBool (readProp q ''body'')))"
  shows "\<exists>s. replyContext h q = Inr s"
proof (cases "truthy q")
  case False
  then show ?thesis by (simp add: replyContext_def)
next
  case True
  with assms have a: "isPrimitive (readProp q ''author'')"
    and b: "isStr (readProp q ''body'') \<or> isNum (readProp q ''body'') \<or> isBool (readProp q ''body'')"
    by auto
  from quotedPreview_ok[OF b, of h] obtain p where p: "quotedPreview h (readProp q ''body'') = Inr p"
    and pp: "isPrimitive p" by blast
  from toString_primitive[OF a, of h] obtain sa where sa: "toString h (readProp q ''author'') = Inr sa"
    by blast
  from toString_primitive[OF pp, of h] obtain sp where sp: "toString h p = Inr sp" by blast
  from True p sa sp show ?thesis by (simp add: replyContext_def)
qed

lemma formatAll_all_null:
  "\<forall>m\<in>set messages. formatter m = Inr None \<Longrightarrow>
     formatAll formatter messages = Inr (replicate (length messages) None)"
  by (induction messages) auto

lemma nonNull_replicate_None: "nonNull (replicate n None) = []"
  by (induction n) (auto simp: nonNull_def List.map_filter_simps)

lemma batchLoop_Nil: "batchLoop tok llm [] 0 s tr = (Inr s, tr)"
  by (simp add: batchLoop.simps batchCount_def BATCH_SIZE_def)

lemma fallbackMessage_nonempty: "fallbackMessage \<noteq> []"
  by (simp add: fallbackMessage_def)

section \<open>The chunker\<close>

lemma chunkStep_concat:
  assumes "chunkStep tok maxTokens (chunks, cur, cnt) l = (chunks', cur', cnt')"
  shows "concat chunks' @ cur' = concat chunks @ cur @ [safeguard tok maxTokens l]"
    and "cur' \<noteq> []"
    and "[] \<notin> set chunks \<Longrightarrow> [] \<notin> set chunks'"
  using assms
  by (auto simp: chunkStep_def safeguard_def Let_def split: if_splits)

lemma foldl_chunkStep_concat:
  "foldl (chunkStep tok maxTokens) (chunks, cur, cnt) ls = (chunks', cur', cnt') \<Longrightarrow>
     concat chunks' @ cur' = concat chunks @ cur @ map (safeguard tok maxTokens) ls \<and>
     ([] \<notin> set chunks \<longrightarrow> [] \<notin> set chunks')"
proof (induction ls arbitrary: chunks cur cnt)
  case Nil
  then show ?case by simp
next
  case (Cons l ls)
  obtain c1 u1 n1 where s: "chunkStep tok maxTokens (chunks, cur, cnt) l = (c1, u1, n1)"
    by (cases "chunkStep tok maxTokens (chunks, cur, cnt) l") auto
  from Cons.prems s have "foldl (chunkStep tok maxTokens) (c1, u1, n1) ls = (chunks', cur', cnt')"
    by simp
  from Cons.IH[OF this] chunkStep_concat[OF s] show ?case by simp
qed

lemma safeguard_small:
  "\<forall>l\<in>set ls. 4 * int (countTokens tok l) \<le> 3 * maxTokens \<Longrightarrow> map (safeguard tok maxTokens) ls = ls"
  by (induction ls) (auto simp: safeguard_def)

section \<open>The splitting pass\<close>

lemma splitLoop_bounded_aux:
  assumes "splitLoop tok chunks i = Some out"
  shows "(\<forall>j<i. j < length chunks \<longrightarrow> countTokens tok (joinLines (chunks ! j)) \<le> 2000) \<longrightarrow>
     (\<forall>c\<in>set out. countTokens tok (joinLines c) \<le> 2000)"
proof (rule splitLoop.raw_induct[where P = "\<lambda>t cs k res.
          (\<forall>j<k. j < length cs \<longrightarrow> countTokens t (joinLines (cs ! j)) \<le> 2000) \<longrightarrow>
          (\<forall>c\<in>set res. countTokens t (joinLines c) \<le> 2000)", OF _ assms])
  fix rec :: "(string \<Rightarrow> nat) \<Rightarrow> string list list \<Rightarrow> nat \<Rightarrow> string list list option"
  fix t cs k res
  assume IH: "\<And>a b c y. rec a b c = Some y \<Longrightarrow>
      (\<forall>j<c. j < length b \<longrightarrow> countTokens a (joinLines (b ! j)) \<le> 2000) \<longrightarrow>
      (\<forall>c\<in>set y. countTokens a (joinLines c) \<le> 2000)"
  assume eq: "(if k < length cs then
        (let chunk = cs ! k; chatText = joinLines chunk; totalTokens = countTokens t chatText
         in if totalTokens > 2000 then
              (let midpoint = length chunk div 2; firstHalf = take midpoint chunk;
                   secondHalf = drop midpoint chunk
               in rec t (take k cs @ [firstHalf, secondHalf] @ drop (Suc k) cs) k)
            else rec t cs (Suc k))
      else Some cs) = Some res"
  show "(\<forall>j<k. j < length cs \<longrightarrow> countTokens t (joinLines (cs ! j)) \<le> 2000) \<longrightarrow>
        (\<forall>c\<in>set res. countTokens t (joinLines c) \<le> 2000)"
  proof
    assume pre: "\<forall>j<k. j < length cs \<longrightarrow> countTokens t (joinLines (cs ! j)) \<le> 2000"
    show "\<forall>c\<in>set res. countTokens t (joinLines c) \<le> 2000"
    proof (cases "k < length cs")
      case False
      with eq have "res = cs" by simp
      with pre False show ?thesis by (auto simp: in_set_conv_nth)
    next
      case True
      show ?thesis
      proof (cases "2000 < countTokens t (joinLines (cs ! k))")
        case big: True
        let ?new = "take k cs @ [take (length (cs ! k) div 2) (cs ! k),
                      drop (length (cs ! k) div 2) (cs ! k)] @ drop (Suc k) cs"
        from eq True big have r: "rec t ?new k = Some res" by (simp add: Let_def)
        have "\<forall>j<k. j < length ?new \<longrightarrow> countTokens t (joinLines (?new ! j)) \<le> 2000"
          using pre True by (auto simp: nth_append)
        with IH[OF r] show ?thesis by blast
      next
        case small: False
        from eq True small have r: "rec t cs (Suc k) = Some res" by (simp add: Let_def)
        have "\<forall>j<Suc k. j < length cs \<longrightarrow> countTokens t (joinLines (cs ! j)) \<le> 2000"
          using pre small by (auto simp: less_Suc_eq)
        with IH[OF r] show ?thesis by blast
      qed
    qed
  qed
qed

lemma splitLoop_concat_aux:
  assumes "splitLoop tok chunks i = Some out"
  shows "concat out = concat chunks"
proof (rule splitLoop.raw_induct[where P = "\<lambda>t cs k res. concat res = concat cs", OF _ assms])
  fix rec :: "(string \<Rightarrow> nat) \<Rightarrow> string list list \<Rightarrow> nat \<Rightarrow> string list list option"
  fix t cs k res
  assume IH: "\<And>a b c y. rec a b c = Some y \<Longrightarrow> concat y = concat b"
  assume eq: "(if k < length cs then
        (let chunk = cs ! k; chatText = joinLines chunk; totalTokens = countTokens t chatText
         in if totalTokens > 2000 then
              (let midpoint = length chunk div 2; firstHalf = take midpoint chunk;
                   secondHalf = drop midpoint chunk
               in rec t (take k cs @ [firstHalf, secondHalf] @ drop (Suc k) cs) k)
            else rec t cs (Suc k))
      else Some cs) = Some res"
  show "concat res = concat cs"
  proof (cases "k < length cs")
    case False
    with eq show ?thesis by simp
  next
    case True
    show ?thesis
    proof (cases "2000 < countTokens t (joinLines (cs ! k))")
      case big: True
      let ?new = "take k cs @ [take (length (cs ! k) div 2) (cs ! k),
                    drop (length (cs ! k) div 2) (cs ! k)] @ drop (Suc k) cs"
      from eq True big have r: "rec t ?new k = Some res" by (simp add: Let_def)
      have "concat ?new = concat (take k cs @ [cs ! k] @ drop (Suc k) cs)"
        by simp
      also have "\<dots> = concat cs"
        using True by (simp add: Cons_nth_drop_Suc)
      finally have "concat ?new = concat cs" .
      with IH[OF r] show ?thesis by simp
    next
      case small: False
      from eq True small have r: "rec t cs (Suc k) = Some res" by (simp add: Let_def)
      from IH[OF r] show ?thesis .
    qed
  qed
qed

lemma splitLoop_stuck_aux:
  assumes "splitLoop tok chunks i = Some out"
  shows "\<not> stuckAt tok chunks i"
proof (rule splitLoop.raw_induct[where P = "\<lambda>t cs k res. \<not> stuckAt t cs k", OF _ assms])
  fix rec :: "(string \<Rightarrow> nat) \<Rightarrow> string list list \<Rightarrow> nat \<Rightarrow> string list list option"
  fix t cs k res
  assume IH: "\<And>a b c y. rec a b c = Some y \<Longrightarrow> \<not> stuckAt a b c"
  assume eq: "(if k < length cs then
        (let chunk = cs ! k; chatText = joinLines chunk; totalTokens = countTokens t chatText
         in if totalTokens > 2000 then
              (let midpoint = length chunk div 2; firstHalf = take midpoint chunk;
                   secondHalf = drop midpoint chunk
               in rec t (take k cs @ [firstHalf, secondHalf] @ drop (Suc k) cs) k)
            else rec t cs (Suc k))
      else Some cs) = Some res"
  show "\<not> stuckAt t cs k"
  proof
    assume "stuckAt t cs k"
    then obtain j where j: "k \<le> j" "j < length cs" "length (cs ! j) = 1"
      "2000 < countTokens t (joinLines (cs ! j))" unfolding stuckAt_def by blast
    then have lt: "k < length cs" by simp
    show False
    proof (cases "2000 < countTokens t (joinLines (cs ! k))")
      case big: True
      let ?new = "take k cs @ [take (length (cs ! k) div 2) (cs ! k),
                    drop (length (cs ! k) div 2) (cs ! k)] @ drop (Suc k) cs"
      from eq lt big have r: "rec t ?new k = Some res" by (simp add: Let_def)
      have len: "length ?new = Suc (length cs)" using lt by simp
      have nth: "?new ! Suc j = cs ! j"
      proof (cases "j = k")
        case True
        with j(3) lt show ?thesis by (simp add: nth_append)
      next
        case False
        with j(1) have "k < j" by simp
        with j(2) lt show ?thesis
          by (auto simp: nth_append nth_Cons' min_def)
      qed
      have "stuckAt t ?new k"
        unfolding stuckAt_def using j len nth
        by (intro exI[of _ "Suc j"]) (simp del: nth_append_length)
      with IH[OF r] show False by blast
    next
      case small: False
      from eq lt small have r: "rec t cs (Suc k) = Some res" by (simp add: Let_def)
      from small j(4) have "j \<noteq> k" by auto
      with j(1) have "Suc k \<le> j" by simp
      with j have "stuckAt t cs (Suc k)" unfolding stuckAt_def by blast
      with IH[OF r] show False by blast
    qed
  qed
qed

lemma splitLoop_diverges:
  assumes "stuckAt tok chunks i"
  shows "splitLoop tok chunks i = None"
proof (cases "splitLoop tok chunks i")
  case None
  then show ?thesis .
next
  case (Some out)
  from splitLoop_stuck_aux[OF Some] assms show ?thesis by blast
qed

lemma splitLoop_terminates:
  assumes "\<forall>c\<in>set chunks. \<forall>l\<in>set c. countTokens tok l \<le> 2000"
  shows "\<exists>out. splitLoop tok chunks i = Some out"
  using assms
proof (induction "splitMeasure chunks i" arbitrary: chunks i rule: less_induct)
  case less
  show ?case
  proof (cases "i < length chunks")
    case False
    then show ?thesis by (subst splitLoop.simps) simp
  next
    case True
    then have d: "drop i chunks = chunks ! i # drop (Suc i) chunks"
      by (simp add: Cons_nth_drop_Suc)
    show ?thesis
    proof (cases "2000 < countTokens tok (joinLines (chunks ! i))")
      case small: False
      have "splitMeasure chunks (Suc i) < splitMeasure chunks i"
        using True by (simp add: splitMeasure_def d)
      from less.hyps[OF this less.prems] obtain out where
        "splitLoop tok chunks (Suc i) = Some out" by blast
      with True small show ?thesis by (subst splitLoop.simps) (simp add: Let_def)
    next
      case big: True
      let ?c = "chunks ! i"
      let ?a = "take (length ?c div 2) ?c"
      let ?b = "drop (length ?c div 2) ?c"
      let ?new = "take i chunks @ [?a, ?b] @ drop (Suc i) chunks"
      have cin: "?c \<in> set chunks" using True by simp
      have len2: "2 \<le> length ?c"
      proof (rule ccontr)
        assume "\<not> 2 \<le> length ?c"
        then have "length ?c = 0 \<or> length ?c = 1" by arith
        then show False
        proof
          assume "length ?c = 0"
          with big show False by (simp add: countTokens_def)
        next
          assume "length ?c = 1"
          then obtain l where l: "?c = [l]" by (cases ?c) auto
          with cin less.prems have "countTokens tok l \<le> 2000" by (metis list.set_intros(1))
          with big l show False by simp
        qed
      qed
      have dn: "drop i ?new = ?a # ?b # drop (Suc i) chunks"
        using True by (simp add: min_def)
      have "splitMeasure ?new i < splitMeasure chunks i"
        using True len2 unfolding splitMeasure_def dn d by simp
      moreover have "\<forall>c\<in>set ?new. \<forall>l\<in>set c. countTokens tok l \<le> 2000"
      proof (intro ballI)
        fix c l assume c: "c \<in> set ?new" and l: "l \<in> set c"
        from c have "c \<in> set chunks \<or> c = ?a \<or> c = ?b"
          by (auto dest: in_set_takeD in_set_dropD)
        with l have "\<exists>c'\<in>set chunks. l \<in> set c'"
          using cin by (auto dest: in_set_takeD in_set_dropD)
        with less.prems show "countTokens tok l \<le> 2000" by blast
      qed
      ultimately obtain out where "splitLoop tok ?new i = Some out"
        using less.hyps by blast
      with True big show ?thesis by (subst splitLoop.simps) (simp add: Let_def)
    qed
  qed
qed

text \<open>So \<^verbatim>\<open>summarizeWithLLM\<close> returns when the formatter raises, and when no line of the
  chunks has more than 2000 tokens.\<close>

lemma summarizeWithLLM_returns:
  assumes "\<And>chunks0 c l.
             createTokenBasedChunks tok cfg (formatMessageCompact host) messages = Inr chunks0 \<Longrightarrow>
             c \<in> set chunks0 \<Longrightarrow> l \<in> set c \<Longrightarrow> countTokens tok l \<le> 2000"
  shows "\<exists>out. summarizeWithLLM tok cfg host llm messages = Some out"
proof (cases "createTokenBasedChunks tok cfg (formatMessageCompact host) messages")
  case (Inl e)
  then show ?thesis by (simp add: summarizeWithLLM_def summarizeBody_def)
next
  case (Inr cs)
  with assms have "\<forall>c\<in>set cs. \<forall>l\<in>set c. countTokens tok l \<le> 2000" by blast
  then obtain out where "splitLoop tok cs 0 = Some out"
    using splitLoop_terminates[of cs tok 0] by blast
  with Inr show ?thesis
    by (auto simp: summarizeWithLLM_def summarizeBody_def split: prod.splits sum.splits)
qed

section \<open>Traces of the pipeline\<close>

lemma system_prompts_distinct:
  "getSummarizationSystemPrompt \<noteq> getConsolidationSystemPrompt"
  "getSummarizationSystemPrompt \<noteq> getRefinementSystemPrompt"
  "getConsolidationSystemPrompt \<noteq> getRefinementSystemPrompt"
  by (simp_all add: getSummarizationSystemPrompt_def getConsolidationSystemPrompt_def
        getRefinementSystemPrompt_def)

lemma answered_Nil: "answered llm []"
  by (simp add: answered_def)

lemma answered_snoc: "answered llm (tr @ [q]) \<longleftrightarrow> answered llm tr \<and> isContent (llm tr q)"
  by (auto simp: answered_def less_Suc_eq nth_append)

lemma processChunks_step:
  "processChunks tok llm i (chunk # rest) bs tr =
     (let prompt = chunkPrompt i bs (joinLines chunk);
          req = \<lparr>systemContent = getSummarizationSystemPrompt, userContent = prompt\<rparr>
      in if countTokens tok prompt > 3800 then (Inr bs, tr)
         else (case llm tr req of
                 Rejected \<Rightarrow> (Inl RequestFailed, tr @ [req])
               | NoChoices \<Rightarrow> (Inl MalformedResponse, tr @ [req])
               | Content s \<Rightarrow>
                   processChunks tok llm (Suc i) rest
                     (if i = 0 then s else bs @ ''\<newline>\<newline>'' @ s) (tr @ [req])))"
  by (simp add: Let_def post_def split: reply.splits)

lemma processChunks_trace:
  "\<exists>new. snd (processChunks tok llm i cs bs tr) = tr @ new \<and> (\<forall>q\<in>set new. chunkRequest tok q)"
proof (induction cs arbitrary: i bs tr)
  case Nil
  then show ?case by simp
next
  case (Cons chunk rest)
  let ?prompt = "chunkPrompt i bs (joinLines chunk)"
  let ?req = "\<lparr>systemContent = getSummarizationSystemPrompt, userContent = ?prompt\<rparr>"
  show ?case
  proof (cases "countTokens tok ?prompt > 3800")
    case True
    then show ?thesis by (simp add: processChunks_step del: processChunks.simps)
  next
    case False
    then have cr: "chunkRequest tok ?req" by (simp add: chunkRequest_def)
    show ?thesis
    proof (cases "llm tr ?req")
      case Rejected
      with False cr show ?thesis
        by (simp add: processChunks_step del: processChunks.simps)
    next
      case NoChoices
      with False cr show ?thesis
        by (simp add: processChunks_step del: processChunks.simps)
    next
      case (Content s)
      obtain new where n: "snd (processChunks tok llm (Suc i) rest
          (if i = 0 then s else bs @ ''\<newline>\<newline>'' @ s) (tr @ [?req])) = (tr @ [?req]) @ new"
          "\<forall>q\<in>set new. chunkRequest tok q"
        using Cons.IH by blast
      have "snd (processChunks tok llm i (chunk # rest) bs tr) = tr @ (?req # new)"
        using False Content n(1) by (simp add: processChunks_step del: processChunks.simps)
      moreover have "\<forall>q\<in>set (?req # new). chunkRequest tok q"
        using cr n(2) by simp
      ultimately show ?thesis by blast
    qed
  qed
qed

lemma processChunks_runShape:
  "answered llm tr \<Longrightarrow> runShape llm (processChunks tok llm i cs bs tr)"
proof (induction cs arbitrary: i bs tr)
  case Nil
  then show ?case by (simp add: runShape_def)
next
  case (Cons chunk rest)
  let ?prompt = "chunkPrompt i bs (joinLines chunk)"
  let ?req = "\<lparr>systemContent = getSummarizationSystemPrompt, userContent = ?prompt\<rparr>"
  show ?case
  proof (cases "countTokens tok ?prompt > 3800")
    case True
    with Cons.prems show ?thesis
      by (simp add: processChunks_step runShape_def del: processChunks.simps)
  next
    case False
    show ?thesis
    proof (cases "llm tr ?req")
      case Rejected
      with False Cons.prems show ?thesis
        by (simp add: processChunks_step runShape_def del: processChunks.simps)
    next
      case NoChoices
      with False Cons.prems show ?thesis
        by (simp add: processChunks_step runShape_def del: processChunks.simps)
    next
      case (Content s)
      with Cons.prems have "answered llm (tr @ [?req])"
        by (simp add: answered_snoc)
      from Cons.IH[OF this] False Content show ?thesis
        by (simp add: processChunks_step del: processChunks.simps)
    qed
  qed
qed

lemma batchLoop_done:
  "\<not> b < batchCount chunks \<Longrightarrow> batchLoop tok llm chunks b fs tr = (Inr fs, tr)"
  by (subst batchLoop.simps) simp

lemma batchLoop_fail:
  "b < batchCount chunks \<Longrightarrow>
   processChunks tok llm 0 (currentBatchChunks chunks b) [] tr = (Inl e, tr1) \<Longrightarrow>
   batchLoop tok llm chunks b fs tr = (Inl e, tr1)"
  by (subst batchLoop.simps) simp

lemma batchLoop_first:
  "b < batchCount chunks \<Longrightarrow>
   processChunks tok llm 0 (currentBatchChunks chunks b) [] tr = (Inr bs, tr1) \<Longrightarrow>
   batchLoop tok llm chunks b [] tr = batchLoop tok llm chunks (Suc b) bs tr1"
  by (subst batchLoop.simps) simp

lemma batchLoop_consolidate:
  "b < batchCount chunks \<Longrightarrow> fs \<noteq> [] \<Longrightarrow>
   processChunks tok llm 0 (currentBatchChunks chunks b) [] tr = (Inr bs, tr1) \<Longrightarrow>
   batchLoop tok llm chunks b fs tr =
     (case llm tr1 (consolidationRequest fs bs) of
        Rejected \<Rightarrow> (Inl RequestFailed, tr1 @ [consolidationRequest fs bs])
      | NoChoices \<Rightarrow> (Inl MalformedResponse, tr1 @ [consolidationRequest fs bs])
      | Content text \<Rightarrow> batchLoop tok llm chunks (Suc b) text (tr1 @ [consolidationRequest fs bs]))"
  by (subst batchLoop.simps) (simp add: post_def consolidationRequest_def split: reply.splits)

lemma batchLoop_cases_induct [case_names finished failed first rejected consolidated]:
  assumes "\<And>b fs tr. \<not> b < batchCount chunks \<Longrightarrow> P b fs tr (Inr fs, tr)"
    and "\<And>b fs tr e tr1. b < batchCount chunks \<Longrightarrow>
           processChunks tok llm 0 (currentBatchChunks chunks b) [] tr = (Inl e, tr1) \<Longrightarrow>
           P b fs tr (Inl e, tr1)"
    and "\<And>b tr bs tr1. b < batchCount chunks \<Longrightarrow>
           processChunks tok llm 0 (currentBatchChunks chunks b) [] tr = (Inr bs, tr1) \<Longrightarrow>
           P (Suc b) bs tr1 (batchLoop tok llm chunks (Suc b) bs tr1) \<Longrightarrow>
           P b [] tr (batchLoop tok llm chunks (Suc b) bs tr1)"
    and "\<And>b fs tr bs tr1 e. b < batchCount chunks \<Longrightarrow> fs \<noteq> [] \<Longrightarrow>
           processChunks tok llm 0 (currentBatchChunks chunks b) [] tr = (Inr bs, tr1) \<Longrightarrow>
           \<not> isContent (llm tr1 (consolidationRequest fs bs)) \<Longrightarrow>
           P b fs tr (Inl e, tr1 @ [consolidationRequest fs bs])"
    and "\<And>b fs tr bs tr1 ans. b < batchCount chunks \<Longrightarrow> fs \<noteq> [] \<Longrightarrow>
           processChunks tok llm 0 (currentBatchChunks chunks b) [] tr = (Inr bs, tr1) \<Longrightarrow>
           llm tr1 (consolidationRequest fs bs) = Content ans \<Longrightarrow>
           P (Suc b) ans (tr1 @ [consolidationRequest fs bs])
             (batchLoop tok llm chunks (Suc b) ans (tr1 @ [consolidationRequest fs bs])) \<Longrightarrow>
           P b fs tr (batchLoop tok llm chunks (Suc b) ans (tr1 @ [consolidationRequest fs bs]))"
  shows "P b fs tr (batchLoop tok llm chunks b fs tr)"
proof (induction "batchCount chunks - b" arbitrary: b fs tr)
  case 0
  then have "\<not> b < batchCount chunks" by simp
  then show ?case using assms(1) by (simp add: batchLoop_done)
next
  case (Suc n)
  then have lt: "b < batchCount chunks" and n: "n = batchCount chunks - Suc b" by simp_all
  obtain r tr1 where pc: "processChunks tok llm 0 (currentBatchChunks chunks b) [] tr = (r, tr1)"
    by (cases "processChunks tok llm 0 (currentBatchChunks chunks b) [] tr") auto
  show ?case
  proof (cases r)
    case (Inl e)
    with pc lt show ?thesis using assms(2) by (simp add: batchLoop_fail)
  next
    case (Inr bs)
    note pc' = pc[unfolded Inr]
    show ?thesis
    proof (cases "fs = []")
      case True
      with assms(3)[OF lt pc' Suc.hyps(1)[OF n]] show ?thesis
        by (simp add: batchLoop_first[OF lt pc'])
    next
      case False
      show ?thesis
      proof (cases "llm tr1 (consolidationRequest fs bs)")
        case Rejected
        with assms(4)[OF lt False pc', of RequestFailed] show ?thesis
          by (simp add: batchLoop_consolidate[OF lt False pc'])
      next
        case NoChoices
        with assms(4)[OF lt False pc', of MalformedResponse] show ?thesis
          by (simp add: batchLoop_consolidate[OF lt False pc'])
      next
        case (Content ans)
        with assms(5)[OF lt False pc' Content Suc.hyps(1)[OF n]] show ?thesis
          by (simp add: batchLoop_consolidate[OF lt False pc'])
      qed
    qed
  qed
qed

lemma batchLoop_trace:
  "\<exists>new. snd (batchLoop tok llm chunks b fs tr) = tr @ new \<and> (\<forall>q\<in>set new. batchRequest tok q)"
proof (induction b fs tr rule: batchLoop_cases_induct[where tok=tok and llm=llm and chunks=chunks])
  case (finished b fs tr)
  then show ?case by simp
next
  case (failed b fs tr e tr1)
  with processChunks_trace[of tok llm 0 "currentBatchChunks chunks b" "[]" tr]
  show ?case by (auto simp: batchRequest_def)
next
  case (first b tr bs tr1)
  from processChunks_trace[of tok llm 0 "currentBatchChunks chunks b" "[]" tr] first(2)
  obtain n1 where "tr1 = tr @ n1" "\<forall>q\<in>set n1. chunkRequest tok q" by auto
  moreover from first(3) obtain n2 where
    "snd (batchLoop tok llm chunks (Suc b) bs tr1) = tr1 @ n2" "\<forall>q\<in>set n2. batchRequest tok q"
    by blast
  ultimately have "snd (batchLoop tok llm chunks (Suc b) bs tr1) = tr @ (n1 @ n2)"
    "\<forall>q\<in>set (n1 @ n2). batchRequest tok q"
    by (auto simp: batchRequest_def)
  then show ?case by blast
next
  case (rejected b fs tr bs tr1 e)
  from processChunks_trace[of tok llm 0 "currentBatchChunks chunks b" "[]" tr] rejected(3)
  obtain n1 where "tr1 = tr @ n1" "\<forall>q\<in>set n1. chunkRequest tok q" by auto
  then have "snd (Inl e :: error + string, tr1 @ [consolidationRequest fs bs]) = tr @ (n1 @ [consolidationRequest fs bs])"
    "\<forall>q\<in>set (n1 @ [consolidationRequest fs bs]). batchRequest tok q"
    by (auto simp: batchRequest_def consolidationRequest_def)
  then show ?case by blast
next
  case (consolidated b fs tr bs tr1 ans)
  from processChunks_trace[of tok llm 0 "currentBatchChunks chunks b" "[]" tr] consolidated(3)
  obtain n1 where "tr1 = tr @ n1" "\<forall>q\<in>set n1. chunkRequest tok q" by auto
  moreover from consolidated(5) obtain n2 where
    "snd (batchLoop tok llm chunks (Suc b) ans (tr1 @ [consolidationRequest fs bs]))
       = (tr1 @ [consolidationRequest fs bs]) @ n2" "\<forall>q\<in>set n2. batchRequest tok q"
    by blast
  ultimately have "snd (batchLoop tok llm chunks (Suc b) ans (tr1 @ [consolidationRequest fs bs]))
       = tr @ (n1 @ [consolidationRequest fs bs] @ n2)"
    "\<forall>q\<in>set (n1 @ [consolidationRequest fs bs] @ n2). batchRequest tok q"
    by (auto simp: batchRequest_def consolidationRequest_def)
  then show ?case by blast
qed

lemma batchLoop_runShape:
  "answered llm tr \<Longrightarrow> runShape llm (batchLoop tok llm chunks b fs tr)"
proof (induction b fs tr rule: batchLoop_cases_induct[where tok=tok and llm=llm and chunks=chunks])
  case (finished b fs tr)
  then show ?case by (simp add: runShape_def)
next
  case (failed b fs tr e tr1)
  with processChunks_runShape[of llm tr tok 0 "currentBatchChunks chunks b" "[]"]
  show ?case by simp
next
  case (first b tr bs tr1)
  with processChunks_runShape[of llm tr tok 0 "currentBatchChunks chunks b" "[]"]
  show ?case by (simp add: runShape_def)
next
  case (rejected b fs tr bs tr1 e)
  with processChunks_runShape[of llm tr tok 0 "currentBatchChunks chunks b" "[]"]
  show ?case by (simp add: runShape_def)
next
  case (consolidated b fs tr bs tr1 ans)
  with processChunks_runShape[of llm tr tok 0 "currentBatchChunks chunks b" "[]"]
  show ?case by (simp add: runShape_def answered_snoc)
qed

section \<open>Runs of the pipeline\<close>

lemma refine_cases:
  "refine llm chunks f tr = (r, tr') \<Longrightarrow>
     (\<not> BATCH_SIZE < length chunks \<and> r = Inr f \<and> tr' = tr) \<or>
     (BATCH_SIZE < length chunks \<and>
      tr' = tr @ [\<lparr>systemContent = getRefinementSystemPrompt, userContent = getRefinementPrompt f\<rparr>] \<and>
      (case r of
         Inr s \<Rightarrow> llm tr \<lparr>systemContent = getRefinementSystemPrompt, userContent = getRefinementPrompt f\<rparr> = Content s
       | Inl e \<Rightarrow> \<not> isContent (llm tr \<lparr>systemContent = getRefinementSystemPrompt, userContent = getRefinementPrompt f\<rparr>)))"
  by (auto simp: refine_def post_def split: if_splits reply.splits)

lemma refine_runShape: "answered llm tr \<Longrightarrow> runShape llm (refine llm chunks f tr)"
  by (auto simp: refine_def post_def runShape_def answered_snoc split: reply.splits)

lemma summarizeBody_cases:
  assumes "summarizeBody tok cfg host llm messages = Some out"
  shows "(\<exists>e. createTokenBasedChunks tok cfg (formatMessageCompact host) messages = Inl e \<and> out = (Inl e, [])) \<or>
         (\<exists>chunks0 chunks. createTokenBasedChunks tok cfg (formatMessageCompact host) messages = Inr chunks0 \<and>
             splitLoop tok chunks0 0 = Some chunks \<and> out = afterSplit tok llm chunks)"
  using assms by (auto simp: summarizeBody_def afterSplit_def split: sum.splits option.splits)

lemma afterSplit_runShape: "runShape llm (afterSplit tok llm chunks)"
proof -
  have b: "runShape llm (batchLoop tok llm chunks 0 [] [])"
    by (rule batchLoop_runShape[OF answered_Nil])
  obtain r tr where o: "batchLoop tok llm chunks 0 [] [] = (r, tr)"
    by (cases "batchLoop tok llm chunks 0 [] []") auto
  show ?thesis
  proof (cases r)
    case (Inl e)
    with b o show ?thesis by (simp add: afterSplit_def)
  next
    case (Inr f)
    with b o have "answered llm tr" by (simp add: runShape_def)
    from refine_runShape[OF this] o Inr show ?thesis by (simp add: afterSplit_def)
  qed
qed

lemma afterSplit_trace:
  "\<forall>q\<in>set (snd (afterSplit tok llm chunks)).
      batchRequest tok q \<or> systemContent q = getRefinementSystemPrompt"
proof -
  obtain r tr where o: "batchLoop tok llm chunks 0 [] [] = (r, tr)"
    by (cases "batchLoop tok llm chunks 0 [] []") auto
  from batchLoop_trace[of tok llm chunks 0 "[]" "[]"] o
  have t: "\<forall>q\<in>set tr. batchRequest tok q" by auto
  show ?thesis
  proof (cases r)
    case (Inl e)
    with t o show ?thesis by (simp add: afterSplit_def)
  next
    case (Inr f)
    obtain r' tr' where rf: "refine llm chunks f tr = (r', tr')"
      by (cases "refine llm chunks f tr") auto
    from refine_cases[OF rf] t have "\<forall>q\<in>set tr'. batchRequest tok q \<or> systemContent q = getRefinementSystemPrompt"
      by auto
    with o Inr rf show ?thesis by (simp add: afterSplit_def)
  qed
qed

lemma summarizeWithLLM_body:
  "summarizeWithLLM tok cfg host llm messages = Some (summary, trace) \<Longrightarrow>
     \<exists>r. summarizeBody tok cfg host llm messages = Some (r, trace) \<and>
         summary = (case r of Inl e \<Rightarrow> fallbackMessage | Inr s \<Rightarrow> s)"
  by (auto simp: summarizeWithLLM_def split: option.splits sum.splits prod.splits)

lemma refinementCalls_batchRequests:
  "\<forall>q\<in>set tr. batchRequest tok q \<Longrightarrow> refinementCalls tr = 0"
  using system_prompts_distinct
  by (auto simp: refinementCalls_def batchRequest_def chunkRequest_def filter_empty_conv)


subsection \<open>Counting consolidations\<close>

lemma nonEmptyRepliesD:
  assumes "nonEmptyReplies llm (tr @ q # rest)" and "llm tr q = Content s"
  shows "s \<noteq> []"
proof
  assume "s = []"
  have "length tr < length (tr @ q # rest)" by simp
  with assms(1)
  have "llm (take (length tr) (tr @ q # rest)) ((tr @ q # rest) ! length tr) \<noteq> Content []"
    unfolding nonEmptyReplies_def by blast
  then have "llm tr q \<noteq> Content []" by simp
  with assms(2) \<open>s = []\<close> show False by simp
qed

lemma nonEmptyReplies_prefix:
  "nonEmptyReplies llm (tr @ rest) \<Longrightarrow> nonEmptyReplies llm tr"
proof -
  assume a: "nonEmptyReplies llm (tr @ rest)"
  have "llm (take k tr) (tr ! k) \<noteq> Content []" if "k < length tr" for k
  proof -
    from that have "k < length (tr @ rest)" by simp
    with a have "llm (take k (tr @ rest)) ((tr @ rest) ! k) \<noteq> Content []"
      unfolding nonEmptyReplies_def by blast
    with that show ?thesis by (simp add: nth_append)
  qed
  then show ?thesis by (simp add: nonEmptyReplies_def)
qed

lemma consolidationCalls_append:
  "consolidationCalls (xs @ ys) = consolidationCalls xs + consolidationCalls ys"
  by (simp add: consolidationCalls_def)

lemma consolidationCalls_chunkRequests:
  "\<forall>q\<in>set new. chunkRequest tok q \<Longrightarrow> consolidationCalls new = 0"
  using system_prompts_distinct
  by (auto simp: consolidationCalls_def chunkRequest_def filter_empty_conv)

lemma processChunks_consolidationCalls:
  "processChunks tok llm i cs bs tr = (r, tr1) \<Longrightarrow> consolidationCalls tr1 = consolidationCalls tr"
  using processChunks_trace[of tok llm i cs bs tr] consolidationCalls_chunkRequests[of _ tok]
  by (auto simp: consolidationCalls_append)

lemma consolidationCalls_request [simp]:
  "consolidationCalls [consolidationRequest fs bs] = 1"
  by (simp add: consolidationCalls_def consolidationRequest_def)

lemma batchLoop_consolidations_le:
  "consolidationCalls (snd (batchLoop tok llm chunks b fs tr))
      + (if fs = [] \<and> b < batchCount chunks then 1 else 0)
     \<le> consolidationCalls tr + (batchCount chunks - b)"
proof (induction b fs tr rule: batchLoop_cases_induct[where tok=tok and llm=llm and chunks=chunks])
  case (finished b fs tr)
  then show ?case by simp
next
  case (failed b fs tr e tr1)
  then show ?case using processChunks_consolidationCalls[of tok llm 0 _ "[]" tr "Inl e" tr1]
    by auto
next
  case (first b tr bs tr1)
  then show ?case using processChunks_consolidationCalls[of tok llm 0 _ "[]" tr "Inr bs" tr1]
    by (auto split: if_splits)
next
  case (rejected b fs tr bs tr1 e)
  then show ?case using processChunks_consolidationCalls[of tok llm 0 _ "[]" tr "Inr bs" tr1]
    by (auto simp: consolidationCalls_append)
next
  case (consolidated b fs tr bs tr1 ans)
  then show ?case using processChunks_consolidationCalls[of tok llm 0 _ "[]" tr "Inr bs" tr1]
    by (auto simp: consolidationCalls_append split: if_splits)
qed

lemma batchLoop_extends:
  "batchLoop tok llm chunks b fs tr = (r, tr') \<Longrightarrow> \<exists>new. tr' = tr @ new"
  using batchLoop_trace[of tok llm chunks b fs tr] by auto

lemma processChunks_extends:
  "processChunks tok llm i cs bs tr = (r, tr') \<Longrightarrow> \<exists>new. tr' = tr @ new"
  using processChunks_trace[of tok llm i cs bs tr] by auto

lemma batchLoop_consolidations_eq:
  "fs \<noteq> [] \<longrightarrow> (\<forall>s tr'. batchLoop tok llm chunks b fs tr = (Inr s, tr') \<longrightarrow>
           nonEmptyReplies llm tr' \<longrightarrow>
           consolidationCalls tr' = consolidationCalls tr + (batchCount chunks - b))"
proof (induction b fs tr rule: batchLoop_cases_induct[where tok=tok and llm=llm and chunks=chunks])
  case (finished b fs tr)
  then show ?case by simp
next
  case (failed b fs tr e tr1)
  then show ?case by simp
next
  case (first b tr bs tr1)
  then show ?case by simp
next
  case (rejected b fs tr bs tr1 e)
  then show ?case by simp
next
  case (consolidated b fs tr bs tr1 ans)
  let ?tr2 = "tr1 @ [consolidationRequest fs bs]"
  have c1: "consolidationCalls tr1 = consolidationCalls tr"
    using processChunks_consolidationCalls[OF consolidated(3)] .
  have "consolidationCalls tr' = consolidationCalls tr + (batchCount chunks - b)"
    if run: "batchLoop tok llm chunks (Suc b) ans ?tr2 = (Inr s, tr')"
      and ne: "nonEmptyReplies llm tr'" for s tr'
  proof -
    from batchLoop_extends[OF run] obtain new where "tr' = tr1 @ consolidationRequest fs bs # new"
      by auto
    with ne consolidated(4) have "ans \<noteq> []" using nonEmptyRepliesD by blast
    with consolidated(5) run ne
    have "consolidationCalls tr' = consolidationCalls ?tr2 + (batchCount chunks - Suc b)"
      by blast
    with c1 consolidated(1) show ?thesis by (simp add: consolidationCalls_append)
  qed
  then show ?case by blast
qed

lemma processChunks_keeps_nonempty:
  "bs \<noteq> [] \<Longrightarrow> processChunks tok llm i cs bs tr = (Inr bs', tr') \<Longrightarrow>
   nonEmptyReplies llm tr' \<Longrightarrow> bs' \<noteq> []"
proof (induction cs arbitrary: i bs tr)
  case Nil
  then show ?case by simp
next
  case (Cons chunk rest)
  let ?req = "\<lparr>systemContent = getSummarizationSystemPrompt,
               userContent = chunkPrompt i bs (joinLines chunk)\<rparr>"
  show ?case
  proof (cases "countTokens tok (chunkPrompt i bs (joinLines chunk)) > 3800")
    case True
    with Cons.prems show ?thesis by (simp add: processChunks_step del: processChunks.simps)
  next
    case False
    show ?thesis
    proof (cases "llm tr ?req")
      case Rejected
      with False Cons.prems show ?thesis
        by (simp add: processChunks_step del: processChunks.simps)
    next
      case NoChoices
      with False Cons.prems show ?thesis
        by (simp add: processChunks_step del: processChunks.simps)
    next
      case (Content s)
      from Cons.prems(2) False Content
      have run: "processChunks tok llm (Suc i) rest (if i = 0 then s else bs @ ''\<newline>\<newline>'' @ s)
              (tr @ [?req]) = (Inr bs', tr')"
        by (simp add: processChunks_step del: processChunks.simps)
      from processChunks_extends[OF run] obtain new where "tr' = tr @ ?req # new" by auto
      with Cons.prems(3) Content have "s \<noteq> []" using nonEmptyRepliesD by blast
      then have ne: "(if i = 0 then s else bs @ ''\<newline>\<newline>'' @ s) \<noteq> []" by simp
      from Cons.IH[OF ne run Cons.prems(3)] show ?thesis .
    qed
  qed
qed

lemma processChunks_first_nonempty:
  assumes H: "nonEmptyReplies llm tr'"
    and fit: "countTokens tok (getInitialPrompt (joinLines chunk)) \<le> 3800"
    and run: "processChunks tok llm 0 (chunk # rest) [] tr = (Inr bs', tr')"
  shows "bs' \<noteq> []"
proof -
  let ?req = "\<lparr>systemContent = getSummarizationSystemPrompt,
               userContent = chunkPrompt 0 [] (joinLines chunk)\<rparr>"
  have p: "chunkPrompt 0 [] (joinLines chunk) = getInitialPrompt (joinLines chunk)"
    by (simp add: chunkPrompt_def)
  show ?thesis
  proof (cases "llm tr ?req")
    case Rejected
    with fit run p show ?thesis by (simp add: processChunks_step del: processChunks.simps)
  next
    case NoChoices
    with fit run p show ?thesis by (simp add: processChunks_step del: processChunks.simps)
  next
    case (Content s)
    from fit run p Content
    have run': "processChunks tok llm (Suc 0) rest s (tr @ [?req]) = (Inr bs', tr')"
      by (simp add: processChunks_step del: processChunks.simps)
    from processChunks_extends[OF run'] obtain new where "tr' = tr @ ?req # new" by auto
    with H Content have ne: "s \<noteq> []" using nonEmptyRepliesD by blast
    from processChunks_keeps_nonempty[OF ne run' H] show ?thesis .
  qed
qed

lemma currentBatchChunks_first:
  "chunks \<noteq> [] \<Longrightarrow> \<exists>rest. currentBatchChunks chunks 0 = hd chunks # rest"
  by (cases chunks) (auto simp: currentBatchChunks_def BATCH_SIZE_def Let_def)

lemma batchCount_pos: "0 < batchCount chunks \<longleftrightarrow> chunks \<noteq> []"
  by (cases chunks) (auto simp: batchCount_def BATCH_SIZE_def)

section \<open>Evaluation at the concrete inputs\<close>

lemma timeStr_morning: "timeStr (Some (9, 5)) = ''9:05''"
  by code_simp

lemma format_greeting: "formatMessageCompact morningHost greeting = Inr (Some ''[9:05] a: hi'')"
  by (simp add: formatMessageCompact_def greeting_def newDate_def morningHost_def replyContext_def
        timeStr_morning trim_def isSpace_def)

lemma countTokens_charTokens: "countTokens charTokens s = length s"
  by (simp add: countTokens_def charTokens_def)

lemma prompt_lengths:
  "length (getInitialPrompt c) = 1181 + length c"
  "length (getContinuationPrompt b c) = 723 + length b + length c"
  "length (getConsolidationPrompt f b) = 862 + length f + length b"
  "length (getRefinementPrompt f) = 878 + length f"
  by (simp_all add: getInitialPrompt_def getContinuationPrompt_def getConsolidationPrompt_def
        getRefinementPrompt_def)

lemma splitLoop_unchanged:
  assumes "\<forall>c\<in>set chunks. countTokens tok (joinLines c) \<le> 2000"
  shows "splitLoop tok chunks i = Some chunks"
  using assms
proof (induction "length chunks - i" arbitrary: i)
  case 0
  then show ?case by (subst splitLoop.simps) simp
next
  case (Suc n)
  then have lt: "i < length chunks" and n: "n = length chunks - Suc i" by simp_all
  from Suc.prems lt have "\<not> 2000 < countTokens tok (joinLines (chunks ! i))"
    by (simp add: not_less)
  with lt Suc.hyps(1)[OF n Suc.prems] show ?case
    by (subst splitLoop.simps) (simp add: Let_def)
qed

lemma chunks_of_greetings:
  "createTokenBasedChunks charTokens smallConfig (formatMessageCompact morningHost)
     [greeting, greeting, greeting, greeting, greeting]
   = Inr [[''[9:05] a: hi''], [''[9:05] a: hi''], [''[9:05] a: hi''], [''[9:05] a: hi''], [''[9:05] a: hi'']]"
  "createTokenBasedChunks charTokens smallConfig (formatMessageCompact morningHost)
     [greeting, greeting, greeting, greeting]
   = Inr [[''[9:05] a: hi''], [''[9:05] a: hi''], [''[9:05] a: hi''], [''[9:05] a: hi'']]"
  "createTokenBasedChunks charTokens smallConfig (formatMessageCompact morningHost)
     [greeting, greeting, greeting]
   = Inr [[''[9:05] a: hi''], [''[9:05] a: hi''], [''[9:05] a: hi'']]"
  "createTokenBasedChunks charTokens smallConfig (formatMessageCompact morningHost)
     [greeting]
   = Inr [[''[9:05] a: hi'']]"
  by (simp_all add: createTokenBasedChunks_def format_greeting nonNull_def List.map_filter_simps
        chunkStep_def countTokens_charTokens smallConfig_def maxChunkTokens_def Let_def)

lemmas run_simps = summarizeWithLLM_def summarizeBody_def batchLoop.simps refine_def post_def
  batchCount_def BATCH_SIZE_def currentBatchChunks_def chunkPrompt_def countTokens_charTokens
  prompt_lengths Let_def

lemma echo_run:
  "summarizeBody charTokens smallConfig morningHost echoClient [greeting, greeting, greeting]
     = Some (Inr ''ok'', echoTrace)"
  by (simp add: run_simps chunks_of_greetings splitLoop_unchanged echoClient_def echoTrace_def)

lemma flaky_run:
  "summarizeWithLLM charTokens smallConfig morningHost flakyClient [greeting, greeting, greeting]
     = Some (fallbackMessage, flakyTrace)"
  by (simp add: run_simps chunks_of_greetings splitLoop_unchanged flakyClient_def flakyTrace_def)

lemma three_chunks:
  "splitLoop charTokens [[''[9:05] a: hi''], [''[9:05] a: hi''], [''[9:05] a: hi'']] 0
     = Some [[''[9:05] a: hi''], [''[9:05] a: hi''], [''[9:05] a: hi'']]"
  by (simp add: splitLoop_unchanged countTokens_charTokens)

lemma split_three_lines:
  "splitLoop charTokens [[longLine, longLine, longLine]] 0 = Some [[longLine], [longLine, longLine]]"
  by (simp add: splitLoop.simps countTokens_charTokens longLine_def Let_def)

lemma fmt_long: "formatMessageCompact morningHost longAuthor
     = Inr (Some (''[9:05] '' @ replicate 1600 CHR ''x'' @ '': hello''))"
  by (simp add: formatMessageCompact_def longAuthor_def newDate_def morningHost_def replyContext_def
        numberToString_def timeStr_morning trim_def isSpace_def)


section \<open>Properties of the formatter\<close>

lemma formatMessageCompact_formattable:
  assumes "formattable msg"
  shows "\<exists>r. formatMessageCompact h msg = Inr r"
proof (cases "truthy (body msg)")
  case False
  then show ?thesis by (simp add: formatMessageCompact_def)
next
  case True
  with assms obtain b where b: "body msg = JStr b"
    by (cases "body msg") (auto simp: formattable_def)
  from assms have "isPrimitive (timestamp msg)" by (simp add: formattable_def)
  from toString_primitive[OF this, of h] obtain d where d: "newDate h (timestamp msg) = Inr d"
    by (auto simp: newDate_def)
  obtain a where a: "authorPart (author msg) = Inr a" and pa: "isPrimitive a"
    using assms authorPart_ok[of "author msg"] by (auto simp: formattable_def)
  from toString_primitive[OF pa, of h] obtain sa where sa: "toString h a = Inr sa" by blast
  obtain c where c: "replyContext h (quotedMsg msg) = Inr c"
    using assms replyContext_ok[of "quotedMsg msg" h] by (auto simp: formattable_def)
  show ?thesis using b d a sa c by (simp add: formatMessageCompact_def Let_def)
qed

lemma wellTyped_formattable: "wellTyped msg \<Longrightarrow> formattable msg"
proof -
  assume w: "wellTyped msg"
  then have 1: "isStr (body msg)" "isStr (author msg)" "isPrimitive (timestamp msg)"
    by (simp_all add: wellTyped_def)
  from w consider "quotedMsg msg = JNull" | "quotedMsg msg = JUndefined"
    | "isObject (quotedMsg msg) \<and> isStr (readProp (quotedMsg msg) ''author'')
        \<and> isStr (readProp (quotedMsg msg) ''body'')"
    by (auto simp: wellTyped_def)
  then have "\<not> truthy (quotedMsg msg) \<or>
       (isObject (quotedMsg msg) \<and> isPrimitive (readProp (quotedMsg msg) ''author'') \<and>
        (isStr (readProp (quotedMsg msg) ''body'') \<or> isNum (readProp (quotedMsg msg) ''body'')
           \<or> isBool (readProp (quotedMsg msg) ''body'')))"
  proof cases
    case 1
    then show ?thesis by simp
  next
    case 2
    then show ?thesis by simp
  next
    case 3
    then have "isPrimitive (readProp (quotedMsg msg) ''author'')"
      by (cases "readProp (quotedMsg msg) ''author''") auto
    with 3 show ?thesis by simp
  qed
  with 1 show ?thesis by (simp add: formattable_def)
qed

lemma formatMessageCompact_line:
  assumes "body msg = JStr b" "trim b \<noteq> []" "\<not> truthy (hasMedia msg)"
    and "formatMessageCompact h msg = Inr r"
  shows "\<exists>line. r = Some line"
proof -
  from assms(2) have "b \<noteq> []" by (auto simp: trim_def)
  with assms show ?thesis
    by (auto simp: formatMessageCompact_def Let_def split: sum.splits)
qed

lemma formatMessage_returns:
  assumes "isFormatted \<or>
     (isPrimitive (rawTimestamp raw) \<and> isoString h (rawTimestamp raw) \<noteq> None
        \<and> hasData (rawData raw))"
  shows "\<exists>r. formatMessage h raw isFormatted = Inr r"
proof (cases isFormatted)
  case True
  then show ?thesis by (simp add: formatMessage_def)
next
  case False
  with assms obtain stamp where stamp: "isoString h (rawTimestamp raw) = Some stamp"
    and d: "hasData (rawData raw)" and p: "isPrimitive (rawTimestamp raw)" by auto
  from toString_primitive[OF p, of h] obtain s where s: "toString h (rawTimestamp raw) = Inr s"
    by blast
  from d have "\<exists>a. authorOf raw = Inr a"
    by (simp add: authorOf_def getProp_def hasData_def)
  then obtain a where "authorOf raw = Inr a" by blast
  with False stamp s show ?thesis by (simp add: formatMessage_def Let_def)
qed

lemma quotedInfo_shape:
  "quotedInfo d = JNull \<or>
   (\<exists>a b. quotedInfo d = JObj [(''author'', a), (''body'', b)] \<and> truthy a \<and>
          b \<noteq> JUndefined \<and> b \<noteq> JNull)"
proof -
  have o: "truthy (orElse x (JStr ''Unknown''))" for x by (simp add: orElse_def)
  have b: "orElse x (JStr []) \<noteq> JUndefined \<and> orElse x (JStr []) \<noteq> JNull" for x
    by (cases x) (auto simp: orElse_def)
  show ?thesis using o b by (auto simp: quotedInfo_def Let_def)
qed

lemma formatMessage_quoted:
  assumes "formatMessage h raw isFormatted = Inr (Inr msg')"
  shows "quotedMsg msg' = JNull \<or>
   (\<exists>a b. quotedMsg msg' = JObj [(''author'', a), (''body'', b)] \<and> truthy a \<and>
          b \<noteq> JUndefined \<and> b \<noteq> JNull)"
proof -
  from assms have "quotedMsg msg' = quotedInfo (rawData raw)"
    by (auto simp: formatMessage_def Let_def split: if_splits option.splits sum.splits)
  then show ?thesis using quotedInfo_shape[of "rawData raw"] by simp
qed

text \<open>
  C8. A message whose body is an empty or whitespace-only string, or whose media flag is
  \<^verbatim>\<open>true\<close>, is formatted to \<^verbatim>\<open>null\<close>, whatever its timestamp, author and quoted message are.
  A message of the canonical shape with a body that has a non-whitespace character and
  media flag \<^verbatim>\<open>false\<close> is formatted to a line.
\<close>

theorem formatMessageCompact_filter:
  "(body msg = JStr b \<and> (trim b = [] \<or> hasMedia msg = JBool True)
      \<longrightarrow> formatMessageCompact host msg = Inr None) \<and>
   (wellTyped msg \<and> body msg = JStr b \<and> trim b \<noteq> [] \<and> hasMedia msg = JBool False
      \<longrightarrow> (\<exists>line. formatMessageCompact host msg = Inr (Some line)))"
proof (intro conjI impI)
  assume "body msg = JStr b \<and> (trim b = [] \<or> hasMedia msg = JBool True)"
  then show "formatMessageCompact host msg = Inr None"
    by (auto simp: formatMessageCompact_def)
next
  assume a: "wellTyped msg \<and> body msg = JStr b \<and> trim b \<noteq> [] \<and> hasMedia msg = JBool False"
  then obtain r where r: "formatMessageCompact host msg = Inr r"
    using formatMessageCompact_formattable[OF wellTyped_formattable] by blast
  from a have "\<not> truthy (hasMedia msg)" by simp
  with a r obtain line where "r = Some line"
    using formatMessageCompact_line[of msg b host r] by blast
  with r show "\<exists>line. formatMessageCompact host msg = Inr (Some line)" by simp
qed

theorem formatMessageCompact_filter_witness:
  "body (greeting\<lparr>body := JStr '' '', quotedMsg := JObj [(''author'', JNull)]\<rparr>) = JStr '' '' \<and>
   trim '' '' = [] \<and>
   formatMessageCompact morningHost (greeting\<lparr>body := JStr '' '', quotedMsg := JObj [(''author'', JNull)]\<rparr>)
     = Inr None \<and>
   wellTyped greeting \<and> body greeting = JStr ''hi'' \<and> trim ''hi'' \<noteq> [] \<and>
   hasMedia greeting = JBool False \<and>
   (\<exists>line. formatMessageCompact morningHost greeting = Inr (Some line))"
proof -
  have h1: "body (greeting\<lparr>body := JStr '' '', quotedMsg := JObj [(''author'', JNull)]\<rparr>) = JStr '' ''"
    by simp
  have h2: "trim '' '' = []" by (simp add: trim_def isSpace_def)
  have h3: "wellTyped greeting \<and> body greeting = JStr ''hi'' \<and> trim ''hi'' \<noteq> [] \<and>
            hasMedia greeting = JBool False"
    by (simp add: wellTyped_def greeting_def trim_def isSpace_def)
  show ?thesis
    using h1 h2 h3
      formatMessageCompact_filter[of "greeting\<lparr>body := JStr '' '', quotedMsg := JObj [(''author'', JNull)]\<rparr>"
        "'' ''" morningHost]
      formatMessageCompact_filter[of greeting "''hi''" morningHost]
    by blast
qed

text \<open>
  C9, as stated, fails: a record whose quoted message has no body makes the formatter
  raise a \<^verbatim>\<open>TypeError\<close>, and so does one whose quoted body is an array of 61 elements.
\<close>

theorem formatMessageCompact_raises_counterexample:
  "formatMessageCompact morningHost replyWithoutBody = Inl TypeError \<and>
   formatMessageCompact morningHost replyWithArrayBody = Inl TypeError"
  by (simp add: formatMessageCompact_def replyWithoutBody_def replyWithArrayBody_def trim_def
        isSpace_def newDate_def morningHost_def replyContext_def quotedPreview_def getProp_def)

text \<open>
  C9, amended. \<^verbatim>\<open>formatMessageCompact\<close> returns (a line or \<^verbatim>\<open>null\<close>) on every record whose
  timestamp is absent, \<^verbatim>\<open>null\<close>, a boolean, a number or a string, whose body and author are
  each absent, falsy or a string, and whose quoted message is falsy or an object whose
  author is absent, \<^verbatim>\<open>null\<close>, a boolean, a number or a string and whose body is a string, a
  number or a boolean. \<^verbatim>\<open>formatMessage\<close> returns on every raw message that is flagged as
  already formatted, or whose timestamp is absent, \<^verbatim>\<open>null\<close>, a boolean, a number or a
  string and gives a valid date and whose \<^verbatim>\<open>_data\<close> is neither absent nor \<^verbatim>\<open>null\<close>; the
  quoted message it produces is \<^verbatim>\<open>null\<close> or an object of an author and a body, with a
  truthy author and a body that is neither absent nor \<^verbatim>\<open>null\<close>.
\<close>

theorem formatMessageCompact_total_on_formattable:
  "(formattable msg \<longrightarrow> (\<exists>r. formatMessageCompact host msg = Inr r)) \<and>
   (isFormatted \<or>
    (isPrimitive (rawTimestamp raw) \<and> isoString host (rawTimestamp raw) \<noteq> None
       \<and> hasData (rawData raw))
      \<longrightarrow> (\<exists>r. formatMessage host raw isFormatted = Inr r)) \<and>
   (formatMessage host raw isFormatted = Inr (Inr msg')
      \<longrightarrow> quotedMsg msg' = JNull \<or>
          (\<exists>a b. quotedMsg msg' = JObj [(''author'', a), (''body'', b)] \<and> truthy a \<and>
                 b \<noteq> JUndefined \<and> b \<noteq> JNull))"
proof (intro conjI impI)
  assume "formattable msg"
  then show "\<exists>r. formatMessageCompact host msg = Inr r"
    by (rule formatMessageCompact_formattable)
next
  assume "isFormatted \<or>
    (isPrimitive (rawTimestamp raw) \<and> isoString host (rawTimestamp raw) \<noteq> None
       \<and> hasData (rawData raw))"
  then show "\<exists>r. formatMessage host raw isFormatted = Inr r"
    by (rule formatMessage_returns)
next
  assume "formatMessage host raw isFormatted = Inr (Inr msg')"
  then show "quotedMsg msg' = JNull \<or>
          (\<exists>a b. quotedMsg msg' = JObj [(''author'', a), (''body'', b)] \<and> truthy a \<and>
                 b \<noteq> JUndefined \<and> b \<noteq> JNull)"
    by (rule formatMessage_quoted)
qed

theorem formatMessageCompact_total_on_formattable_witness:
  "formattable (replyWithoutBody\<lparr>quotedMsg := JObj [(''body'', JNum 7)], author := JUndefined\<rparr>) \<and>
   (\<exists>r. formatMessageCompact morningHost
           (replyWithoutBody\<lparr>quotedMsg := JObj [(''body'', JNum 7)], author := JUndefined\<rparr>) = Inr r) \<and>
   isPrimitive (rawTimestamp rawGreeting) \<and>
   isoString morningHost (rawTimestamp rawGreeting) \<noteq> None \<and> hasData (rawData rawGreeting) \<and>
   formatMessage morningHost rawGreeting False
     = Inr (Inr (greeting\<lparr>quotedMsg := JObj [(''author'', JStr ''bob''), (''body'', JStr [])]\<rparr>)) \<and>
   quotedMsg (greeting\<lparr>quotedMsg := JObj [(''author'', JStr ''bob''), (''body'', JStr [])]\<rparr>)
     \<noteq> JNull \<and>
   (\<exists>a b. quotedMsg (greeting\<lparr>quotedMsg := JObj [(''author'', JStr ''bob''), (''body'', JStr [])]\<rparr>)
            = JObj [(''author'', a), (''body'', b)] \<and> truthy a \<and> b \<noteq> JUndefined \<and> b \<noteq> JNull)"
proof -
  have h1: "formattable (replyWithoutBody\<lparr>quotedMsg := JObj [(''body'', JNum 7)], author := JUndefined\<rparr>)"
    by (simp add: formattable_def replyWithoutBody_def)
  have h2: "isPrimitive (rawTimestamp rawGreeting) \<and>
            isoString morningHost (rawTimestamp rawGreeting) \<noteq> None \<and> hasData (rawData rawGreeting)"
    by (simp add: morningHost_def rawGreeting_def hasData_def)
  have h3: "formatMessage morningHost rawGreeting False
     = Inr (Inr (greeting\<lparr>quotedMsg := JObj [(''author'', JStr ''bob''), (''body'', JStr [])]\<rparr>))"
    by (simp add: formatMessage_def morningHost_def rawGreeting_def greeting_def authorOf_def
          getProp_def quotedInfo_def orElse_def numberToString_def)
  have h4: "quotedMsg (greeting\<lparr>quotedMsg := JObj [(''author'', JStr ''bob''), (''body'', JStr [])]\<rparr>)
     \<noteq> JNull"
    by simp
  show ?thesis
    using h1 h2 h3 h4
      formatMessageCompact_total_on_formattable[of
        "replyWithoutBody\<lparr>quotedMsg := JObj [(''body'', JNum 7)], author := JUndefined\<rparr>"
        morningHost False rawGreeting
        "greeting\<lparr>quotedMsg := JObj [(''author'', JStr ''bob''), (''body'', JStr [])]\<rparr>"]
    by blast
qed

section \<open>Properties of the chunker\<close>

text \<open>
  C5, as stated, fails: a line of more than three quarters of the chunk budget is cut to
  the first half-budget code units and the truncation marker, so the chunk holds another
  line than the formatter returned.
\<close>

theorem chunking_alters_line_counterexample:
  "formatAll (formatMessageCompact morningHost) [longAuthor]
     = Inr [Some (''[9:05] '' @ replicate 1600 CHR ''x'' @ '': hello'')] \<and>
   createTokenBasedChunks charTokens defaultConfig (formatMessageCompact morningHost) [longAuthor]
     = Inr [[''[9:05] '' @ replicate 993 CHR ''x'' @ ''... [message truncated due to length]'']] \<and>
   ''[9:05] '' @ replicate 993 CHR ''x'' @ ''... [message truncated due to length]''
     \<noteq> ''[9:05] '' @ replicate 1600 CHR ''x'' @ '': hello''"
proof -
  have a: "formatAll (formatMessageCompact morningHost) [longAuthor]
     = Inr [Some (''[9:05] '' @ replicate 1600 CHR ''x'' @ '': hello'')]"
    by (simp add: fmt_long)
  have b: "createTokenBasedChunks charTokens defaultConfig (formatMessageCompact morningHost) [longAuthor]
     = Inr [[''[9:05] '' @ replicate 993 CHR ''x'' @ ''... [message truncated due to length]'']]"
    by (simp add: createTokenBasedChunks_def fmt_long nonNull_def List.map_filter_simps chunkStep_def
          countTokens_def charTokens_def defaultConfig_def maxChunkTokens_def truncationMarker_def
          Let_def min_def)
  have c: "''[9:05] '' @ replicate 993 CHR ''x'' @ ''... [message truncated due to length]''
     \<noteq> ''[9:05] '' @ replicate 1600 CHR ''x'' @ '': hello''"
  proof
    assume "''[9:05] '' @ replicate 993 CHR ''x'' @ ''... [message truncated due to length]''
      = ''[9:05] '' @ replicate 1600 CHR ''x'' @ '': hello''"
    then have "length (''[9:05] '' @ replicate 993 CHR ''x'' @ ''... [message truncated due to length]'')
      = length (''[9:05] '' @ replicate 1600 CHR ''x'' @ '': hello'')"
      by (rule arg_cong)
    then show False by simp
  qed
  show ?thesis using a b c by blast
qed

text \<open>
  C5, amended. The concatenation of the chunks is, in order, the non-null formatted
  lines, each passed through the chunker's safety check: no line is dropped, duplicated or
  moved, no chunk is empty, and a line is altered only if its token count exceeds three
  quarters of the chunk budget; when no line does, the concatenation is the lines.
\<close>

theorem chunks_concat_safeguarded_lines:
  assumes "formatAll formatter messages = Inr formatted"
  shows "\<exists>chunks. createTokenBasedChunks tok cfg formatter messages = Inr chunks \<and>
           concat chunks = map (safeguard tok (maxChunkTokens cfg)) (nonNull formatted) \<and>
           [] \<notin> set chunks \<and>
           ((\<forall>l\<in>set (nonNull formatted). 4 * int (countTokens tok l) \<le> 3 * maxChunkTokens cfg)
              \<longrightarrow> concat chunks = nonNull formatted)"
proof -
  obtain cs cur cnt where f:
    "foldl (chunkStep tok (maxChunkTokens cfg)) ([], [], 0) (nonNull formatted) = (cs, cur, cnt)"
    by (cases "foldl (chunkStep tok (maxChunkTokens cfg)) ([], [], 0) (nonNull formatted)") auto
  from foldl_chunkStep_concat[OF f]
  have c: "concat cs @ cur = map (safeguard tok (maxChunkTokens cfg)) (nonNull formatted)"
    and e: "[] \<notin> set cs" by simp_all
  let ?out = "if cur \<noteq> [] then cs @ [cur] else cs"
  have 1: "createTokenBasedChunks tok cfg formatter messages = Inr ?out"
    using assms f by (simp add: createTokenBasedChunks_def)
  have 2: "concat ?out = map (safeguard tok (maxChunkTokens cfg)) (nonNull formatted)"
    using c by auto
  have 3: "[] \<notin> set ?out" using e by auto
  show ?thesis using 1 2 3 safeguard_small[of "nonNull formatted" tok "maxChunkTokens cfg"]
    by (intro exI[of _ ?out]) (simp del: split_paired_All)
qed

theorem chunks_concat_safeguarded_lines_witness:
  "formatAll (formatMessageCompact morningHost) [greeting, greeting]
     = Inr [Some ''[9:05] a: hi'', Some ''[9:05] a: hi''] \<and>
   nonNull [Some ''[9:05] a: hi'', Some ''[9:05] a: hi''] = [''[9:05] a: hi'', ''[9:05] a: hi''] \<and>
   4 * int (countTokens charTokens ''[9:05] a: hi'') \<le> 3 * maxChunkTokens defaultConfig \<and>
   (\<exists>chunks. createTokenBasedChunks charTokens defaultConfig (formatMessageCompact morningHost)
               [greeting, greeting] = Inr chunks \<and>
             [] \<notin> set chunks \<and>
             concat chunks = nonNull [Some ''[9:05] a: hi'', Some ''[9:05] a: hi''])"
proof -
  have h1: "formatAll (formatMessageCompact morningHost) [greeting, greeting]
     = Inr [Some ''[9:05] a: hi'', Some ''[9:05] a: hi'']"
    by (simp add: format_greeting)
  have h2: "\<forall>l\<in>set (nonNull [Some ''[9:05] a: hi'', Some ''[9:05] a: hi'']).
       4 * int (countTokens charTokens l) \<le> 3 * maxChunkTokens defaultConfig"
    by (simp add: nonNull_def List.map_filter_simps countTokens_charTokens maxChunkTokens_def
          defaultConfig_def)
  have h3: "nonNull [Some ''[9:05] a: hi'', Some ''[9:05] a: hi''] = [''[9:05] a: hi'', ''[9:05] a: hi'']"
    by (simp add: nonNull_def List.map_filter_simps)
  have h4: "4 * int (countTokens charTokens ''[9:05] a: hi'') \<le> 3 * maxChunkTokens defaultConfig"
    by (simp add: countTokens_charTokens maxChunkTokens_def defaultConfig_def)
  show ?thesis
    using h1 h2 h3 h4 chunks_concat_safeguarded_lines[OF h1, of charTokens defaultConfig]
    by blast
qed

text \<open>
  C10. When every message is formatted to \<^verbatim>\<open>null\<close> (in particular when there is no
  message), the chunker returns no chunk and \<^verbatim>\<open>summarizeWithLLM\<close> returns the empty string
  without sending a request; the empty string is not the fallback message.
\<close>

theorem all_null_gives_empty_summary:
  assumes "\<forall>m\<in>set messages. formatMessageCompact host m = Inr None"
  shows "createTokenBasedChunks tok cfg (formatMessageCompact host) messages = Inr [] \<and>
         summarizeWithLLM tok cfg host llm messages = Some ([], []) \<and>
         fallbackMessage \<noteq> []"
proof -
  have c: "createTokenBasedChunks tok cfg (formatMessageCompact host) messages = Inr []"
    using formatAll_all_null[OF assms]
    by (simp add: createTokenBasedChunks_def nonNull_replicate_None)
  have s: "splitLoop tok [] 0 = Some []"
    by (simp add: splitLoop.simps)
  have "summarizeBody tok cfg host llm messages = Some (Inr [], [])"
    by (simp add: summarizeBody_def c s batchLoop_Nil refine_def BATCH_SIZE_def)
  then show ?thesis
    using c fallbackMessage_nonempty by (simp add: summarizeWithLLM_def)
qed

theorem all_null_gives_empty_summary_witness:
  "formatMessageCompact morningHost (onlyMedia ! 0) = Inr None \<and>
   formatMessageCompact morningHost (onlyMedia ! 1) = Inr None \<and>
   length onlyMedia = 2 \<and>
   createTokenBasedChunks charTokens defaultConfig (formatMessageCompact morningHost) onlyMedia = Inr [] \<and>
   summarizeWithLLM charTokens defaultConfig morningHost silentClient onlyMedia = Some ([], []) \<and>
   fallbackMessage \<noteq> []"
proof -
  have h: "\<forall>m\<in>set onlyMedia. formatMessageCompact morningHost m = Inr None"
    by (simp add: onlyMedia_def formatMessageCompact_def trim_def isSpace_def)
  have h0: "formatMessageCompact morningHost (onlyMedia ! 0) = Inr None \<and>
            formatMessageCompact morningHost (onlyMedia ! 1) = Inr None \<and> length onlyMedia = 2"
    by (simp add: onlyMedia_def formatMessageCompact_def trim_def isSpace_def)
  show ?thesis
    using h0 all_null_gives_empty_summary[OF h, of charTokens defaultConfig silentClient] by simp
qed

section \<open>Properties of the splitting pass\<close>

text \<open>
  C2. When the splitting pass ends, every chunk of the sequence it leaves has at most 2000
  tokens in its lines joined by newlines (so the exception the claim allows for a chunk
  of one line is never needed).
\<close>

theorem split_chunks_within_limit:
  assumes "splitLoop tok chunks0 0 = Some messageChunks"
    and "chunk \<in> set messageChunks"
  shows "countTokens tok (joinLines chunk) \<le> 2000"
  using splitLoop_bounded_aux[OF assms(1)] assms(2) by simp

theorem split_chunks_within_limit_witness:
  "splitLoop charTokens [[longLine, longLine, longLine]] 0 = Some [[longLine], [longLine, longLine]] \<and>
   [longLine, longLine] \<in> set [[longLine], [longLine, longLine]] \<and>
   countTokens charTokens (joinLines [longLine, longLine]) \<le> 2000"
proof -
  note h1 = split_three_lines
  have h2: "[longLine, longLine] \<in> set [[longLine], [longLine, longLine]]" by simp
  show ?thesis using h1 h2 split_chunks_within_limit[OF h1 h2] by simp
qed

text \<open>
  C6. The pass does not end on every chunk sequence. A chunk of one line with more than
  2000 tokens is split into an empty chunk and itself, over and over: so it is for a
  line of 2001 code units at one token each. With two tokens for each code unit, the
  line of \<open>longAuthor\<close> has 3228 tokens, the chunker cuts it to 1037 code units, that is 2074
  tokens, and the pass over this one chunk never ends, so \<^verbatim>\<open>summarizeWithLLM\<close> never returns.
\<close>

theorem split_pass_diverges_on_dense_line:
  "splitLoop charTokens [[replicate 2001 CHR ''x'']] 0 = None \<and>
   createTokenBasedChunks denseTokens defaultConfig (formatMessageCompact morningHost) [longAuthor]
     = Inr [[''[9:05] '' @ replicate 993 CHR ''x'' @ truncationMarker]] \<and>
   countTokens denseTokens (joinLines [''[9:05] '' @ replicate 993 CHR ''x'' @ truncationMarker]) = 2074 \<and>
   splitLoop denseTokens [[''[9:05] '' @ replicate 993 CHR ''x'' @ truncationMarker]] 0 = None \<and>
   summarizeWithLLM denseTokens defaultConfig morningHost echoClient [longAuthor] = None"
proof -
  let ?line = "''[9:05] '' @ replicate 993 CHR ''x'' @ truncationMarker"
  have a: "createTokenBasedChunks denseTokens defaultConfig (formatMessageCompact morningHost)
             [longAuthor] = Inr [[?line]]"
    by (simp add: createTokenBasedChunks_def fmt_long nonNull_def List.map_filter_simps chunkStep_def
          countTokens_def denseTokens_def defaultConfig_def maxChunkTokens_def Let_def min_def)
  have b: "countTokens denseTokens (joinLines [?line]) = 2074"
    by (simp add: countTokens_def denseTokens_def truncationMarker_def)
  have "stuckAt denseTokens [[?line]] 0"
    unfolding stuckAt_def using b by (intro exI[of _ 0]) simp
  then have c: "splitLoop denseTokens [[?line]] 0 = None"
    by (rule splitLoop_diverges)
  have d: "summarizeWithLLM denseTokens defaultConfig morningHost echoClient [longAuthor] = None"
    by (simp only: summarizeWithLLM_def summarizeBody_def a c sum.case option.case)
  have "stuckAt charTokens [[replicate 2001 CHR ''x'']] 0"
    unfolding stuckAt_def by (intro exI[of _ 0]) (simp add: countTokens_charTokens)
  then have e: "splitLoop charTokens [[replicate 2001 CHR ''x'']] 0 = None"
    by (rule splitLoop_diverges)
  from a b c d e show ?thesis by blast
qed

section \<open>Properties of the pipeline\<close>

text \<open>
  C1, as stated, fails: the consolidation prompt is counted and submitted whatever its
  size. With one token for each code unit and replies of 900 tokens, the fifth request
  of a run over four chunks is a consolidation prompt of 4466 tokens.
\<close>

theorem consolidation_prompt_over_budget_counterexample:
  "(case summarizeWithLLM charTokens smallConfig morningHost verboseClient
           [greeting, greeting, greeting, greeting] of
      None \<Rightarrow> False
    | Some (summary, trace) \<Rightarrow>
        length trace = 6 \<and>
        systemContent (trace ! 4) = getConsolidationSystemPrompt \<and>
        countTokens charTokens (userContent (trace ! 4)) = 4466 \<and>
        systemContent (trace ! 5) = getRefinementSystemPrompt)"
  by (simp add: run_simps chunks_of_greetings splitLoop_unchanged verboseClient_def)

text \<open>
  C1, amended. Every per-chunk summarization request of a run has a prompt of at most 3800
  tokens; and when the prompt for a chunk has more than 3800 tokens, the loop over the
  batch ends there: no request is sent for this chunk or the rest of the batch and the
  batch summary is what it was.
\<close>

theorem chunk_prompts_within_budget:
  "(summarizeWithLLM tok cfg host llm messages = Some (summary, trace) \<and> req \<in> set trace \<and>
      systemContent req = getSummarizationSystemPrompt
        \<longrightarrow> countTokens tok (userContent req) \<le> 3800) \<and>
   (3800 < countTokens tok (chunkPrompt i batchSummary (joinLines chunk))
        \<longrightarrow> processChunks tok llm i (chunk # rest) batchSummary trace0 = (Inr batchSummary, trace0))"
proof (intro conjI impI)
  assume a: "summarizeWithLLM tok cfg host llm messages = Some (summary, trace) \<and> req \<in> set trace \<and>
      systemContent req = getSummarizationSystemPrompt"
  then obtain r where b: "summarizeBody tok cfg host llm messages = Some (r, trace)"
    using summarizeWithLLM_body by blast
  from a have ne: "trace \<noteq> []" by auto
  from summarizeBody_cases[OF b] ne obtain chunks where "(r, trace) = afterSplit tok llm chunks"
    by auto
  with afterSplit_trace[of tok llm chunks]
  have "\<forall>q\<in>set trace. batchRequest tok q \<or> systemContent q = getRefinementSystemPrompt"
    by (metis snd_conv)
  with a have "batchRequest tok req \<or> systemContent req = getRefinementSystemPrompt" by blast
  with a show "countTokens tok (userContent req) \<le> 3800"
    using system_prompts_distinct by (auto simp: batchRequest_def chunkRequest_def)
next
  assume "3800 < countTokens tok (chunkPrompt i batchSummary (joinLines chunk))"
  then show "processChunks tok llm i (chunk # rest) batchSummary trace0 = (Inr batchSummary, trace0)"
    by (simp add: Let_def)
qed

theorem chunk_prompts_within_budget_witness:
  "summarizeWithLLM charTokens smallConfig morningHost echoClient [greeting] = Some (''ok'', [oneRequest]) \<and>
   oneRequest \<in> set [oneRequest] \<and>
   systemContent oneRequest = getSummarizationSystemPrompt \<and>
   countTokens charTokens (userContent oneRequest) \<le> 3800 \<and>
   3800 < countTokens charTokens (chunkPrompt 1 (replicate 3800 CHR ''x'') (joinLines [''[9:05] a: hi''])) \<and>
   processChunks charTokens echoClient 1 ([''[9:05] a: hi''] # []) (replicate 3800 CHR ''x'') []
     = (Inr (replicate 3800 CHR ''x''), [])"
proof -
  have h1: "summarizeWithLLM charTokens smallConfig morningHost echoClient [greeting]
              = Some (''ok'', [oneRequest])"
    by (simp add: run_simps chunks_of_greetings splitLoop_unchanged echoClient_def oneRequest_def)
  have h2: "oneRequest \<in> set [oneRequest]" by simp
  have h3: "systemContent oneRequest = getSummarizationSystemPrompt" by (simp add: oneRequest_def)
  have h4: "3800 < countTokens charTokens (chunkPrompt 1 (replicate 3800 CHR ''x'') (joinLines [''[9:05] a: hi'']))"
    by (simp add: countTokens_charTokens chunkPrompt_def prompt_lengths)
  show ?thesis
    using h1 h2 h3 h4
      chunk_prompts_within_budget[where tok = charTokens and cfg = smallConfig
        and host = morningHost and llm = echoClient and messages = "[greeting]"
        and summary = "''ok''" and trace = "[oneRequest]" and req = oneRequest and i = 1
        and batchSummary = "replicate 3800 CHR ''x''" and chunk = "[''[9:05] a: hi'']"
        and rest = "[]" and ?trace0.0 = "[]"]
    by blast
qed

text \<open>
  C3. If a completion call of a run is rejected or answered without the choices structure,
  it is the last call of the run and \<^verbatim>\<open>summarizeWithLLM\<close> returns the fallback message.
\<close>

theorem failed_call_gives_fallback:
  assumes "summarizeWithLLM tok cfg host llm messages = Some (summary, trace)"
    and "k < length trace"
    and "\<not> isContent (llm (take k trace) (trace ! k))"
  shows "summary = fallbackMessage \<and> Suc k = length trace"
proof -
  from assms(1) obtain r where b: "summarizeBody tok cfg host llm messages = Some (r, trace)"
    and s: "summary = (case r of Inl e \<Rightarrow> fallbackMessage | Inr s \<Rightarrow> s)"
    using summarizeWithLLM_body by blast
  from assms(2) have ne: "trace \<noteq> []" by auto
  from summarizeBody_cases[OF b] ne obtain chunks where "(r, trace) = afterSplit tok llm chunks"
    by auto
  with afterSplit_runShape[of llm tok chunks] have rs: "runShape llm (r, trace)" by simp
  show ?thesis
  proof (cases r)
    case (Inr ans)
    with rs have "answered llm trace" by (simp add: runShape_def)
    with assms(2,3) show ?thesis by (simp add: answered_def)
  next
    case (Inl e)
    with rs have an: "answered llm (butlast trace)" by (simp add: runShape_def)
    have "\<not> k < length (butlast trace)"
    proof
      assume lt: "k < length (butlast trace)"
      with an have "isContent (llm (take k (butlast trace)) (butlast trace ! k))"
        by (simp add: answered_def)
      moreover from lt have "take k (butlast trace) = take k trace"
        by (simp add: take_butlast)
      moreover from lt have "butlast trace ! k = trace ! k"
        by (simp add: nth_butlast)
      ultimately show False using assms(3) by simp
    qed
    with assms(2) have "Suc k = length trace" by simp
    with s Inl show ?thesis by simp
  qed
qed

theorem failed_call_gives_fallback_witness:
  "summarizeWithLLM charTokens smallConfig morningHost flakyClient [greeting, greeting, greeting]
     = Some (fallbackMessage, flakyTrace) \<and>
   1 < length flakyTrace \<and>
   \<not> isContent (flakyClient (take 1 flakyTrace) (flakyTrace ! 1)) \<and>
   Suc 1 = length flakyTrace"
proof -
  have h1: "summarizeWithLLM charTokens smallConfig morningHost flakyClient [greeting, greeting, greeting]
     = Some (fallbackMessage, flakyTrace)" by (rule flaky_run)
  have h2: "1 < length flakyTrace" by (simp add: flakyTrace_def)
  have h3: "\<not> isContent (flakyClient (take 1 flakyTrace) (flakyTrace ! 1))"
    by (simp add: flakyTrace_def flakyClient_def)
  show ?thesis using h1 h2 h3 failed_call_gives_fallback[OF h1 h2 h3] by simp
qed

text \<open>
  C4. In a run without error, exactly one refinement request is sent if the chunks left by
  the splitting pass are more than the batch size, that is if there is more than one
  batch, and none otherwise. In the first case it is the last request, built from the
  running summary, and its answer is returned; in the second the running summary is
  returned as it is.
\<close>

theorem refinement_iff_more_than_one_batch:
  assumes "createTokenBasedChunks tok cfg (formatMessageCompact host) messages = Inr chunks0"
    and "splitLoop tok chunks0 0 = Some messageChunks"
    and "summarizeBody tok cfg host llm messages = Some (Inr summary, trace)"
  shows "refinementCalls trace = (if BATCH_SIZE < length messageChunks then 1 else 0) \<and>
         (BATCH_SIZE < length messageChunks \<longleftrightarrow> 1 < batchCount messageChunks) \<and>
         (\<exists>fullSummary trace0. batchLoop tok llm messageChunks 0 [] [] = (Inr fullSummary, trace0) \<and>
            (if BATCH_SIZE < length messageChunks
             then trace = trace0 @ [\<lparr>systemContent = getRefinementSystemPrompt,
                                      userContent = getRefinementPrompt fullSummary\<rparr>] \<and>
                  llm trace0 \<lparr>systemContent = getRefinementSystemPrompt,
                               userContent = getRefinementPrompt fullSummary\<rparr> = Content summary
             else trace = trace0 \<and> summary = fullSummary))"
proof -
  from assms have a: "afterSplit tok llm messageChunks = (Inr summary, trace)"
    by (simp add: summarizeBody_def afterSplit_def)
  obtain r tr0 where o: "batchLoop tok llm messageChunks 0 [] [] = (r, tr0)"
    by (cases "batchLoop tok llm messageChunks 0 [] []") auto
  from a o obtain f where f: "r = Inr f" and rf: "refine llm messageChunks f tr0 = (Inr summary, trace)"
    by (cases r) (auto simp: afterSplit_def)
  from batchLoop_trace[of tok llm messageChunks 0 "[]" "[]"] o
  have "\<forall>q\<in>set tr0. batchRequest tok q" by auto
  then have z: "refinementCalls tr0 = 0" by (rule refinementCalls_batchRequests)
  have bc: "BATCH_SIZE < length messageChunks \<longleftrightarrow> 1 < batchCount messageChunks"
    by (auto simp: batchCount_def BATCH_SIZE_def)
  from refine_cases[OF rf] z have rc: "refinementCalls trace = (if BATCH_SIZE < length messageChunks then 1 else 0)"
    by (auto simp: refinementCalls_def)
  from refine_cases[OF rf] o f have ex: "\<exists>fullSummary trace0. batchLoop tok llm messageChunks 0 [] [] = (Inr fullSummary, trace0) \<and>
            (if BATCH_SIZE < length messageChunks
             then trace = trace0 @ [\<lparr>systemContent = getRefinementSystemPrompt,
                                      userContent = getRefinementPrompt fullSummary\<rparr>] \<and>
                  llm trace0 \<lparr>systemContent = getRefinementSystemPrompt,
                               userContent = getRefinementPrompt fullSummary\<rparr> = Content summary
             else trace = trace0 \<and> summary = fullSummary)"
    by auto
  from rc bc ex show ?thesis by blast
qed

theorem refinement_iff_more_than_one_batch_witness:
  "createTokenBasedChunks charTokens smallConfig (formatMessageCompact morningHost)
     [greeting, greeting, greeting]
     = Inr [[''[9:05] a: hi''], [''[9:05] a: hi''], [''[9:05] a: hi'']] \<and>
   splitLoop charTokens [[''[9:05] a: hi''], [''[9:05] a: hi''], [''[9:05] a: hi'']] 0
     = Some [[''[9:05] a: hi''], [''[9:05] a: hi''], [''[9:05] a: hi'']] \<and>
   summarizeBody charTokens smallConfig morningHost echoClient [greeting, greeting, greeting]
     = Some (Inr ''ok'', echoTrace) \<and>
   refinementCalls echoTrace = 1"
proof -
  note h1 = chunks_of_greetings(3)
  note h2 = three_chunks
  note h3 = echo_run
  from refinement_iff_more_than_one_batch[OF h1 h2 h3]
  have "refinementCalls echoTrace = 1" by (simp add: BATCH_SIZE_def)
  with h1 h2 h3 show ?thesis by simp
qed

text \<open>
  C7, as stated, fails: a batch that finds the running summary empty replaces it and is
  not consolidated. With a service that answers the empty string, a run over five chunks
  (three batches) makes one consolidation call, not two.
\<close>

theorem consolidation_count_counterexample:
  "(case summarizeBody charTokens smallConfig morningHost silentClient
           [greeting, greeting, greeting, greeting, greeting] of
      None \<Rightarrow> False
    | Some (result, trace) \<Rightarrow>
        result = Inr [] \<and>
        batchCount [[''[9:05] a: hi''], [''[9:05] a: hi''], [''[9:05] a: hi''], [''[9:05] a: hi''], [''[9:05] a: hi'']] = 3 \<and>
        consolidationCalls trace = 1)"
  using system_prompts_distinct
  by (simp add: run_simps chunks_of_greetings splitLoop_unchanged silentClient_def consolidationCalls_def)

text \<open>
  C7, amended. In a run without error that has no chunk after the splitting pass (batch
  count 0) no consolidation call is made. In a run without error that has a chunk, the
  number of consolidation calls is at most the batch count minus one, and it is exactly
  the batch count minus one when no request of the run was answered with the empty string
  and the initial prompt of the first chunk is within the budget of 3800 tokens. The
  counts are compared as integers, so that nothing is hidden in a subtraction that stops
  at zero.
\<close>

theorem consolidation_calls_with_nonempty_summaries:
  assumes "createTokenBasedChunks tok cfg (formatMessageCompact host) messages = Inr chunks0"
    and "splitLoop tok chunks0 0 = Some messageChunks"
    and "summarizeBody tok cfg host llm messages = Some (Inr summary, trace)"
  shows "(messageChunks = [] \<longrightarrow> consolidationCalls trace = 0) \<and>
         (messageChunks \<noteq> [] \<longrightarrow>
            int (consolidationCalls trace) \<le> int (batchCount messageChunks) - 1) \<and>
         (messageChunks \<noteq> [] \<and> nonEmptyReplies llm trace \<and>
          countTokens tok (getInitialPrompt (joinLines (hd messageChunks))) \<le> 3800
            \<longrightarrow> int (consolidationCalls trace) = int (batchCount messageChunks) - 1)"
proof -
  from assms have a: "afterSplit tok llm messageChunks = (Inr summary, trace)"
    by (simp add: summarizeBody_def afterSplit_def)
  obtain r tr0 where o: "batchLoop tok llm messageChunks 0 [] [] = (r, tr0)"
    by (cases "batchLoop tok llm messageChunks 0 [] []") auto
  from a o obtain f where f: "r = Inr f" and rf: "refine llm messageChunks f tr0 = (Inr summary, trace)"
    by (cases r) (auto simp: afterSplit_def)
  have same: "consolidationCalls trace = consolidationCalls tr0"
    using refine_cases[OF rf] system_prompts_distinct
    by (auto simp: consolidationCalls_def)
  from refine_cases[OF rf] obtain rest where ext: "trace = tr0 @ rest" by auto
  have none: "consolidationCalls tr0 = 0" if "messageChunks = []"
  proof -
    from that o have "tr0 = []" by (simp add: batchLoop_done batchCount_def BATCH_SIZE_def)
    then show ?thesis by (simp add: consolidationCalls_def)
  qed
  have le: "consolidationCalls tr0 + 1 \<le> batchCount messageChunks" if "messageChunks \<noteq> []"
  proof -
    from that have "0 < batchCount messageChunks" by (simp add: batchCount_pos)
    with batchLoop_consolidations_le[of tok llm messageChunks 0 "[]" "[]"] o
    show ?thesis by (simp add: consolidationCalls_def)
  qed
  have eq: "consolidationCalls tr0 + 1 = batchCount messageChunks"
    if ne: "messageChunks \<noteq> []" and H: "nonEmptyReplies llm trace"
      and fit: "countTokens tok (getInitialPrompt (joinLines (hd messageChunks))) \<le> 3800"
  proof -
    from ne have lt: "0 < batchCount messageChunks" by (simp add: batchCount_pos)
    from H ext have H0: "nonEmptyReplies llm tr0" using nonEmptyReplies_prefix by blast
    from currentBatchChunks_first[OF ne] obtain rest where
      cb: "currentBatchChunks messageChunks 0 = hd messageChunks # rest" by blast
    obtain r1 tr1 where pc: "processChunks tok llm 0 (currentBatchChunks messageChunks 0) [] [] = (r1, tr1)"
      by (cases "processChunks tok llm 0 (currentBatchChunks messageChunks 0) [] []") auto
    show ?thesis
    proof (cases r1)
      case (Inl e)
      with pc o f lt show ?thesis by (simp add: batchLoop_fail)
    next
      case (Inr bs)
      note pc' = pc[unfolded Inr]
      from o f have bl: "batchLoop tok llm messageChunks (Suc 0) bs tr1 = (Inr f, tr0)"
        by (simp add: batchLoop_first[OF lt pc'])
      from batchLoop_extends[OF bl] H0 have H1: "nonEmptyReplies llm tr1"
        using nonEmptyReplies_prefix by blast
      have nb: "bs \<noteq> []"
        using processChunks_first_nonempty[OF H1 fit pc'[unfolded cb]] .
      from batchLoop_consolidations_eq[of bs tok llm messageChunks "Suc 0" tr1] nb bl H0
      have "consolidationCalls tr0 = consolidationCalls tr1 + (batchCount messageChunks - Suc 0)"
        by blast
      moreover have "consolidationCalls tr1 = 0"
        using processChunks_consolidationCalls[OF pc'] by (simp add: consolidationCalls_def)
      ultimately show ?thesis using lt by simp
    qed
  qed
  show ?thesis
  proof (intro conjI impI)
    assume "messageChunks = []"
    with none same show "consolidationCalls trace = 0" by simp
  next
    assume "messageChunks \<noteq> []"
    from le[OF this] same show "int (consolidationCalls trace) \<le> int (batchCount messageChunks) - 1"
      by simp
  next
    assume "messageChunks \<noteq> [] \<and> nonEmptyReplies llm trace \<and>
          countTokens tok (getInitialPrompt (joinLines (hd messageChunks))) \<le> 3800"
    then have "consolidationCalls tr0 + 1 = batchCount messageChunks" using eq by blast
    with same show "int (consolidationCalls trace) = int (batchCount messageChunks) - 1"
      by simp
  qed
qed

theorem consolidation_calls_with_nonempty_summaries_witness:
  "createTokenBasedChunks charTokens smallConfig (formatMessageCompact morningHost)
     [greeting, greeting, greeting]
     = Inr [[''[9:05] a: hi''], [''[9:05] a: hi''], [''[9:05] a: hi'']] \<and>
   splitLoop charTokens [[''[9:05] a: hi''], [''[9:05] a: hi''], [''[9:05] a: hi'']] 0
     = Some [[''[9:05] a: hi''], [''[9:05] a: hi''], [''[9:05] a: hi'']] \<and>
   summarizeBody charTokens smallConfig morningHost echoClient [greeting, greeting, greeting]
     = Some (Inr ''ok'', echoTrace) \<and>
   nonEmptyReplies echoClient echoTrace \<and>
   countTokens charTokens (getInitialPrompt (joinLines [''[9:05] a: hi''])) \<le> 3800 \<and>
   batchCount [[''[9:05] a: hi''], [''[9:05] a: hi''], [''[9:05] a: hi'']] = 2 \<and>
   consolidationCalls echoTrace = 1 \<and>
   createTokenBasedChunks charTokens smallConfig (formatMessageCompact morningHost) [] = Inr [] \<and>
   splitLoop charTokens [] 0 = Some [] \<and>
   summarizeBody charTokens smallConfig morningHost echoClient [] = Some (Inr [], []) \<and>
   consolidationCalls [] = 0"
proof -
  note h1 = chunks_of_greetings(3)
  note h2 = three_chunks
  note h3 = echo_run
  have h4: "countTokens charTokens (getInitialPrompt (joinLines [''[9:05] a: hi''])) \<le> 3800"
    by (simp add: countTokens_charTokens prompt_lengths)
  have h5: "nonEmptyReplies echoClient echoTrace"
    by (simp add: nonEmptyReplies_def echoClient_def)
  have h6: "batchCount [[''[9:05] a: hi''], [''[9:05] a: hi''], [''[9:05] a: hi'']] = 2"
    by (simp add: batchCount_def BATCH_SIZE_def)
  have e1: "createTokenBasedChunks charTokens smallConfig (formatMessageCompact morningHost) [] = Inr []"
    by (simp add: createTokenBasedChunks_def nonNull_def List.map_filter_simps)
  have e2: "splitLoop charTokens [] 0 = Some []"
    by (simp add: splitLoop.simps)
  have e3: "summarizeBody charTokens smallConfig morningHost echoClient [] = Some (Inr [], [])"
    by (simp add: summarizeBody_def e1 e2 batchLoop_Nil refine_def BATCH_SIZE_def)
  from consolidation_calls_with_nonempty_summaries[OF h1 h2 h3] h4 h5 h6
  have "consolidationCalls echoTrace = 1" by simp
  moreover from consolidation_calls_with_nonempty_summaries[OF e1 e2 e3]
  have "consolidationCalls [] = 0" by simp
  ultimately show ?thesis using h1 h2 h3 h4 h5 h6 e1 e2 e3 by simp
qed

end
